theory Spec2Isabelle
  imports Complex_Main "HOL-Library.Word"
begin

section \<open>JavaScript strings\<close>

text \<open>
  A JavaScript string is a sequence of UTF-16 code units. The regular expressions of
  \<^verbatim>\<open>csv-generator.ts\<close> carry no \<^verbatim>\<open>u\<close> flag, so they match single code units, and
  \<^verbatim>\<open>length\<close>, \<^verbatim>\<open>slice\<close>, \<^verbatim>\<open>charCodeAt\<close> and \<^verbatim>\<open>split\<close> count code units as well.
\<close>

type_synonym code_unit = "16 word"
type_synonym jsstring = "code_unit list"

definition js :: "string \<Rightarrow> jsstring" where
  "js s = map (\<lambda>c. word_of_nat (of_char c)) s"

definition DQUOTE :: code_unit where "DQUOTE = 0x22"
definition COMMA :: code_unit where "COMMA = 0x2C"
definition LF :: code_unit where "LF = 0x0A"
definition CR :: code_unit where "CR = 0x0D"

text \<open>\<^verbatim>\<open>str.replace(/[class]/g, '')\<close>: every code unit of the class is dropped.\<close>

definition remove_class :: "(code_unit \<Rightarrow> bool) \<Rightarrow> jsstring \<Rightarrow> jsstring" where
  "remove_class cls str = filter (\<lambda>c. \<not> cls c) str"

text \<open>\<^verbatim>\<open>xs.join(sep)\<close>\<close>

fun join :: "jsstring \<Rightarrow> jsstring list \<Rightarrow> jsstring" where
  "join sep [] = []"
| "join sep [x] = x"
| "join sep (x # y # ys) = x @ sep @ join sep (y # ys)"

text \<open>
  \<^verbatim>\<open>content.split('\n')\<close>: the pieces between the separators; the result is never
  empty (the empty string splits into one empty piece).
\<close>

fun split_on :: "code_unit \<Rightarrow> jsstring \<Rightarrow> jsstring list" where
  "split_on sep [] = [[]]"
| "split_on sep (c # cs) =
     (if c = sep then [] # split_on sep cs
      else (case split_on sep cs of
              [] \<Rightarrow> [[c]]
            | p # ps \<Rightarrow> (c # p) # ps))"

text \<open>
  \<^verbatim>\<open>xs.slice(start, end)\<close> with JavaScript's treatment of negative and overlong
  indices: a negative index counts from the end, and both are clamped to the length.
\<close>

definition slice_index :: "nat \<Rightarrow> int \<Rightarrow> nat" where
  "slice_index len i = (if i < 0 then nat (max (int len + i) 0) else min (nat i) len)"

definition slice :: "'a list \<Rightarrow> int \<Rightarrow> int \<Rightarrow> 'a list" where
  "slice xs start end =
     (let k = slice_index (length xs) start;
          final = slice_index (length xs) end
      in take (final - k) (drop k xs))"

section \<open>csv-generator.ts\<close>

subsection \<open>sanitizeUTF8\<close>

text \<open>The three character classes, as the source writes them.\<close>

definition control_class :: "code_unit \<Rightarrow> bool" where
  "control_class c \<longleftrightarrow>
     (0x00 \<le> c \<and> c \<le> 0x08) \<or> c = 0x0B \<or> c = 0x0C \<or> (0x0E \<le> c \<and> c \<le> 0x1F) \<or> c = 0x7F"

definition surrogate_class :: "code_unit \<Rightarrow> bool" where
  "surrogate_class c \<longleftrightarrow> 0xD800 \<le> c \<and> c \<le> 0xDFFF"

definition nonchar_class :: "code_unit \<Rightarrow> bool" where
  "nonchar_class c \<longleftrightarrow> c = 0xFFFE \<or> c = 0xFFFF"

definition sanitizeUTF8 :: "jsstring \<Rightarrow> jsstring" where
  "sanitizeUTF8 str =
     remove_class nonchar_class (remove_class surrogate_class (remove_class control_class str))"

subsection \<open>escapeCSVField and escapeCSVNumber\<close>

text \<open>
  The argument of \<^verbatim>\<open>escapeCSVField\<close> is \<^verbatim>\<open>string | number | undefined | null\<close>. Numbers
  are integers here (line numbers); \<^verbatim>\<open>String(n)\<close> is their decimal numeral, as it is in
  JavaScript for magnitudes below \<open>10^21\<close>.
\<close>

datatype field_value = Undefined | Null | Str jsstring | Num int

function digits :: "nat \<Rightarrow> jsstring" where
  "digits n = (if n < 10 then [word_of_nat (48 + n)] else digits (n div 10) @ [word_of_nat (48 + n mod 10)])"
  by pat_completeness auto
termination
  by (relation "measure (\<lambda>n. n)") auto

declare digits.simps [simp del]

definition String_of_int :: "int \<Rightarrow> jsstring" where
  "String_of_int i = (if i < 0 then 0x2D # digits (nat (- i)) else digits (nat i))"

text \<open>\<^verbatim>\<open>str.replace(/"/g, '""')\<close>\<close>

definition double_quotes :: "jsstring \<Rightarrow> jsstring" where
  "double_quotes str = concat (map (\<lambda>c. if c = DQUOTE then [DQUOTE, DQUOTE] else [c]) str)"

fun escapeCSVField :: "field_value \<Rightarrow> jsstring" where
  "escapeCSVField Undefined = [DQUOTE, DQUOTE]"
| "escapeCSVField Null = [DQUOTE, DQUOTE]"
| "escapeCSVField (Str s) = [DQUOTE] @ double_quotes (sanitizeUTF8 s) @ [DQUOTE]"
| "escapeCSVField (Num n) = [DQUOTE] @ double_quotes (sanitizeUTF8 (String_of_int n)) @ [DQUOTE]"

definition escapeCSVNumber :: "int option \<Rightarrow> int \<Rightarrow> jsstring" where
  "escapeCSVNumber v defaultValue =
     (case v of None \<Rightarrow> String_of_int defaultValue | Some n \<Rightarrow> String_of_int n)"

subsection \<open>isBinaryContent\<close>

text \<open>The test of the loop body on \<^verbatim>\<open>sample.charCodeAt(i)\<close>.\<close>

definition nonPrintable_code :: "code_unit \<Rightarrow> bool" where
  "nonPrintable_code code \<longleftrightarrow> code < 9 \<or> (code > 13 \<and> code < 32) \<or> code = 127"

text \<open>The counting loop, with the counter as accumulator.\<close>

fun count_nonPrintable :: "jsstring \<Rightarrow> nat \<Rightarrow> nat" where
  "count_nonPrintable [] nonPrintable = nonPrintable"
| "count_nonPrintable (code # rest) nonPrintable =
     count_nonPrintable rest (if nonPrintable_code code then nonPrintable + 1 else nonPrintable)"

text \<open>
  The source compares the quotient \<^verbatim>\<open>nonPrintable / sample.length\<close> with \<^verbatim>\<open>0.1\<close> in
  double precision. The sample has at most 1000 characters, so the exact quotient is
  either at most \<open>1/10\<close> or at least \<open>1/10 + 1/10000\<close>, far more than a rounding error
  apart; for \<open>10 * nonPrintable = length\<close> the quotient rounds to the very double that
  \<^verbatim>\<open>0.1\<close> denotes. The comparison is therefore the exact one on rationals.
\<close>

definition isBinaryContent :: "jsstring \<Rightarrow> bool" where
  "isBinaryContent content =
     (if length content = 0 then False
      else let sample = slice content 0 1000;
               nonPrintable = count_nonPrintable sample 0
           in (of_nat nonPrintable / of_nat (length sample) :: rat) > 1 / 10)"

subsection \<open>extractContent\<close>

text \<open>
  \<^verbatim>\<open>GraphNode\<close> is declared in \<^verbatim>\<open>../graph/types\<close>; the fields are the ones this file
  reads. A label is the string the code compares with \<^verbatim>\<open>'Folder'\<close> and \<^verbatim>\<open>'File'\<close>;
  the optional line numbers are integers. The fields \<^verbatim>\<open>id\<close> of a node and \<^verbatim>\<open>type\<close> of a
  relationship are \<open>node_id\<close> and \<open>rel_type\<close> here.
\<close>

record node_properties =
  name :: jsstring
  filePath :: jsstring
  startLine :: "int option"
  endLine :: "int option"

record GraphNode =
  node_id :: jsstring
  label :: jsstring
  properties :: node_properties

record GraphRelationship =
  sourceId :: jsstring
  targetId :: jsstring
  rel_type :: jsstring

record KnowledgeGraph =
  nodes :: "GraphNode list"
  relationships :: "GraphRelationship list"

definition binary_placeholder :: jsstring where
  "binary_placeholder = js ''[Binary file - content not stored]''"

definition truncation_marker :: jsstring where
  "truncation_marker = LF # js ''... [truncated]''"

definition MAX_FILE_CONTENT :: nat where "MAX_FILE_CONTENT = 10000"
definition MAX_SNIPPET :: nat where "MAX_SNIPPET = 5000"
definition contextLines :: int where "contextLines = 2"

text \<open>
  \<^verbatim>\<open>fileContents.get(filePath)\<close> is \<^verbatim>\<open>undefined\<close> for a missing path; \<^verbatim>\<open>!content\<close> holds
  for \<^verbatim>\<open>undefined\<close> and for the empty string.
\<close>

definition extractContent :: "GraphNode \<Rightarrow> (jsstring \<rightharpoonup> jsstring) \<Rightarrow> jsstring" where
  "extractContent node fileContents =
     (case fileContents (filePath (properties node)) of
        None \<Rightarrow> []
      | Some content \<Rightarrow>
          if content = [] then []
          else if label node = js ''Folder'' then []
          else if isBinaryContent content then binary_placeholder
          else if label node = js ''File'' then
            (if length content > MAX_FILE_CONTENT
             then slice content 0 (int MAX_FILE_CONTENT) @ truncation_marker
             else content)
          else
            (case (startLine (properties node), endLine (properties node)) of
               (Some startLine', Some endLine') \<Rightarrow>
                 let lines = split_on LF content;
                     start = max 0 (startLine' - contextLines);
                     end = min (int (length lines) - 1) (endLine' + contextLines);
                     snippet = join [LF] (slice lines start (end + 1))
                 in if length snippet > MAX_SNIPPET
                    then slice snippet 0 (int MAX_SNIPPET) @ truncation_marker
                    else snippet
             | _ \<Rightarrow> []))"

subsection \<open>generateNodeCSV and generateEdgeCSV\<close>

definition node_row :: "GraphNode \<Rightarrow> (jsstring \<rightharpoonup> jsstring) \<Rightarrow> jsstring" where
  "node_row node fileContents =
     (let content = extractContent node fileContents
      in join [COMMA]
           [escapeCSVField (Str (node_id node)),
            escapeCSVField (Str (label node)),
            escapeCSVField (Str (name (properties node))),
            escapeCSVField (Str (filePath (properties node))),
            escapeCSVNumber (startLine (properties node)) (- 1),
            escapeCSVNumber (endLine (properties node)) (- 1),
            escapeCSVField (Str content)])"

definition generateNodeCSV :: "KnowledgeGraph \<Rightarrow> (jsstring \<rightharpoonup> jsstring) \<Rightarrow> jsstring" where
  "generateNodeCSV graph fileContents =
     (let headers = [js ''id'', js ''label'', js ''name'', js ''filePath'',
                     js ''startLine'', js ''endLine'', js ''content''];
          rows = [join [COMMA] headers] @ map (\<lambda>node. node_row node fileContents) (nodes graph)
      in join [LF] rows)"

definition edge_row :: "GraphRelationship \<Rightarrow> jsstring" where
  "edge_row rel =
     join [COMMA]
       [escapeCSVField (Str (sourceId rel)),
        escapeCSVField (Str (targetId rel)),
        escapeCSVField (Str (rel_type rel))]"

definition generateEdgeCSV :: "KnowledgeGraph \<Rightarrow> jsstring" where
  "generateEdgeCSV graph =
     (let headers = [js ''from'', js ''to'', js ''type''];
          rows = [join [COMMA] headers] @ map edge_row (relationships graph)
      in join [LF] rows)"

section \<open>Reading a field back: RFC 4180\<close>

text \<open>
  The grammar of RFC 4180 for one field:
  \<^verbatim>\<open>field = escaped / non-escaped\<close>,
  \<^verbatim>\<open>escaped = DQUOTE *(TEXTDATA / COMMA / CR / LF / 2DQUOTE) DQUOTE\<close>,
  \<^verbatim>\<open>non-escaped = *TEXTDATA\<close>.
  As parsers in use do, \<open>TEXTDATA\<close> is read as any code unit other than the double
  quote, the comma, CR and LF. \<open>rfc4180_escaped\<close> reads the part after the opening
  quote; a doubled quote stands for one quote, a single quote must end the field.
\<close>

fun rfc4180_escaped :: "jsstring \<Rightarrow> jsstring option" where
  "rfc4180_escaped [] = None"
| "rfc4180_escaped (c # cs) =
     (if c \<noteq> DQUOTE then map_option ((#) c) (rfc4180_escaped cs)
      else (case cs of
              [] \<Rightarrow> Some []
            | d # ds \<Rightarrow> if d = DQUOTE then map_option ((#) DQUOTE) (rfc4180_escaped ds) else None))"

definition rfc4180_field :: "jsstring \<Rightarrow> jsstring option" where
  "rfc4180_field s =
     (case s of
        [] \<Rightarrow> Some []
      | c # cs \<Rightarrow>
          if c = DQUOTE then rfc4180_escaped cs
          else if DQUOTE \<in> set s \<or> COMMA \<in> set s \<or> CR \<in> set s \<or> LF \<in> set s then None
          else Some s)"

section \<open>The embedded engine as the adapter sees it\<close>

text \<open>
  \<^verbatim>\<open>kuzu-adapter.ts\<close> drives the \<^verbatim>\<open>kuzu-wasm\<close> module through asynchronous calls, each of
  which may throw. The engine is a parameter of the model: for every call it gives the
  outcome, which may depend on everything that was called before (the trace) and on the
  arguments. A thrown value is an \<^verbatim>\<open>Error\<close> with its message.

  The serializers of \<^verbatim>\<open>csv-generator.ts\<close> compute the texts defined above, and the call
  of one may still throw in the host runtime while it builds its text (a \<^verbatim>\<open>RangeError\<close>
  for a string past the maximal length, exhausted memory). That too is the
  environment's: \<open>build_string\<close> says whether building a given text completes. It is no
  call of the engine and leaves no entry in the trace.
\<close>

datatype exn = Error jsstring

text \<open>
  A row of a query result. The adapter reads the count column by name (\<^verbatim>\<open>row.cnt\<close>) or
  by position (\<^verbatim>\<open>row[0]\<close>); either may be \<^verbatim>\<open>undefined\<close>.
\<close>

record row =
  cnt :: "int option"
  col0 :: "int option"

text \<open>
  A query result holds finitely many rows; after the last one either the cursor is at
  its end (\<^verbatim>\<open>hasNext()\<close> is false, \<^verbatim>\<open>getNext()\<close> yields no row) or the next access throws.
\<close>

datatype cursor = Cursor "row list" "exn option"

fun hasNext :: "cursor \<Rightarrow> exn + bool" where
  "hasNext (Cursor [] None) = Inr False"
| "hasNext (Cursor [] (Some e)) = Inl e"
| "hasNext (Cursor (r # rs) x) = Inr True"

fun getNext :: "cursor \<Rightarrow> exn + (row option \<times> cursor)" where
  "getNext (Cursor [] None) = Inr (None, Cursor [] None)"
| "getNext (Cursor [] (Some e)) = Inl e"
| "getNext (Cursor (r # rs) x) = Inr (Some r, Cursor rs x)"

text \<open>A prepared statement: its success flag and the engine's diagnostic message.\<close>

record stmt =
  isSuccess :: bool
  getErrorMessage :: jsstring

text \<open>The calls the adapter makes, in the order it makes them. \<open>'p\<close> is a parameter object.\<close>

datatype 'p event =
    EvImportAdapter
  | EvImport
  | EvInit
  | EvNewDatabase
  | EvNewConnection
  | EvQuery jsstring
  | EvPrepare jsstring
  | EvExecute 'p
  | EvStmtClose
  | EvUnlink jsstring
  | EvWriteFile jsstring jsstring
  | EvConnClose
  | EvDbClose
  | EvTimeout

record 'p engine =
  kuzu_import :: "'p event list \<Rightarrow> exn + unit"
  kuzu_init :: "'p event list \<Rightarrow> exn + unit"
  new_Database :: "'p event list \<Rightarrow> exn + unit"
  new_Connection :: "'p event list \<Rightarrow> exn + unit"
  conn_query :: "'p event list \<Rightarrow> jsstring \<Rightarrow> exn + cursor"
  conn_prepare :: "'p event list \<Rightarrow> jsstring \<Rightarrow> exn + stmt"
  conn_execute :: "'p event list \<Rightarrow> stmt \<Rightarrow> 'p \<Rightarrow> exn + cursor"
  stmt_close :: "'p event list \<Rightarrow> stmt \<Rightarrow> exn + unit"
  fs_unlink :: "'p event list \<Rightarrow> jsstring \<Rightarrow> exn + unit"
  fs_writeFile :: "'p event list \<Rightarrow> jsstring \<Rightarrow> jsstring \<Rightarrow> exn + unit"
  conn_close :: "'p event list \<Rightarrow> exn + unit"
  db_close :: "'p event list \<Rightarrow> exn + unit"
  build_string :: "'p event list \<Rightarrow> jsstring \<Rightarrow> exn + unit"

text \<open>
  The module-level variables \<^verbatim>\<open>kuzu\<close>, \<^verbatim>\<open>db\<close> and \<^verbatim>\<open>conn\<close> (\<^verbatim>\<open>null\<close> is \<open>None\<close>), and the
  trace of the calls made so far.
\<close>

datatype handle = KuzuModule | Database | Connection

record 'p adapter =
  kuzu :: "handle option"
  db :: "handle option"
  conn :: "handle option"
  trace :: "'p event list"

text \<open>The constants of \<^verbatim>\<open>./schema\<close>, which the adapter imports.\<close>

record schema =
  NODE_SCHEMA :: jsstring
  EDGE_SCHEMA :: jsstring
  EMBEDDING_SCHEMA :: jsstring
  NODE_TABLE_NAME :: jsstring
  EDGE_TABLE_NAME :: jsstring

subsection \<open>Sequencing, \<^verbatim>\<open>throw\<close>, \<^verbatim>\<open>try\<close>/\<^verbatim>\<open>catch\<close>/\<^verbatim>\<open>finally\<close>\<close>

definition returnE :: "'a \<Rightarrow> 's \<Rightarrow> (exn + 'a) \<times> 's" where
  "returnE a s = (Inr a, s)"

definition throwE :: "exn \<Rightarrow> 's \<Rightarrow> (exn + 'a) \<times> 's" where
  "throwE e s = (Inl e, s)"

definition bindE ::
  "('s \<Rightarrow> (exn + 'a) \<times> 's) \<Rightarrow> ('a \<Rightarrow> 's \<Rightarrow> (exn + 'b) \<times> 's) \<Rightarrow> 's \<Rightarrow> (exn + 'b) \<times> 's" where
  "bindE m f s = (case m s of (Inl e, s') \<Rightarrow> (Inl e, s') | (Inr a, s') \<Rightarrow> f a s')"

definition tryCatch ::
  "('s \<Rightarrow> (exn + 'a) \<times> 's) \<Rightarrow> (exn \<Rightarrow> 's \<Rightarrow> (exn + 'a) \<times> 's) \<Rightarrow> 's \<Rightarrow> (exn + 'a) \<times> 's" where
  "tryCatch m h s = (case m s of (Inl e, s') \<Rightarrow> h e s' | (Inr a, s') \<Rightarrow> (Inr a, s'))"

text \<open>
  \<^verbatim>\<open>try { m } finally { fin }\<close>: \<open>fin\<close> runs on both paths; when it throws, its error
  replaces the outcome of \<open>m\<close>.
\<close>

definition tryFinally ::
  "('s \<Rightarrow> (exn + 'a) \<times> 's) \<Rightarrow> ('s \<Rightarrow> (exn + unit) \<times> 's) \<Rightarrow> 's \<Rightarrow> (exn + 'a) \<times> 's" where
  "tryFinally m fin s =
     (case m s of (r, s') \<Rightarrow>
        (case fin s' of (Inl e, s'') \<Rightarrow> (Inl e, s'') | (Inr u, s'') \<Rightarrow> (r, s'')))"

text \<open>\<^verbatim>\<open>try { await m } catch {}\<close>\<close>

definition swallow :: "('s \<Rightarrow> (exn + unit) \<times> 's) \<Rightarrow> 's \<Rightarrow> (exn + unit) \<times> 's" where
  "swallow m = tryCatch m (\<lambda>e. returnE ())"

text \<open>One call of the engine: its outcome at the present trace, and the call recorded.\<close>

definition await ::
  "('p event list \<Rightarrow> exn + 'a) \<Rightarrow> 'p event \<Rightarrow> 'p adapter \<Rightarrow> (exn + 'a) \<times> 'p adapter" where
  "await f ev s = (f (trace s), s\<lparr>trace := trace s @ [ev]\<rparr>)"

text \<open>A value that is already there (a cursor access), lifted into the sequence.\<close>

definition liftE :: "exn + 'a \<Rightarrow> 's \<Rightarrow> (exn + 'a) \<times> 's" where
  "liftE r s = (r, s)"

definition query :: "'p engine \<Rightarrow> jsstring \<Rightarrow> 'p adapter \<Rightarrow> (exn + cursor) \<times> 'p adapter" where
  "query E cypher = await (\<lambda>h. conn_query E h cypher) (EvQuery cypher)"

definition prepare :: "'p engine \<Rightarrow> jsstring \<Rightarrow> 'p adapter \<Rightarrow> (exn + stmt) \<times> 'p adapter" where
  "prepare E cypher = await (\<lambda>h. conn_prepare E h cypher) (EvPrepare cypher)"

definition execute :: "'p engine \<Rightarrow> stmt \<Rightarrow> 'p \<Rightarrow> 'p adapter \<Rightarrow> (exn + cursor) \<times> 'p adapter" where
  "execute E st params = await (\<lambda>h. conn_execute E h st params) (EvExecute params)"

definition close_stmt :: "'p engine \<Rightarrow> stmt \<Rightarrow> 'p adapter \<Rightarrow> (exn + unit) \<times> 'p adapter" where
  "close_stmt E st = await (\<lambda>h. stmt_close E h st) EvStmtClose"

definition unlink :: "'p engine \<Rightarrow> jsstring \<Rightarrow> 'p adapter \<Rightarrow> (exn + unit) \<times> 'p adapter" where
  "unlink E path = await (\<lambda>h. fs_unlink E h path) (EvUnlink path)"

definition writeFile ::
  "'p engine \<Rightarrow> jsstring \<Rightarrow> jsstring \<Rightarrow> 'p adapter \<Rightarrow> (exn + unit) \<times> 'p adapter" where
  "writeFile E path data = await (\<lambda>h. fs_writeFile E h path data) (EvWriteFile path data)"

text \<open>
  The loop \<^verbatim>\<open>while (await result.hasNext()) { rows.push(await result.getNext()) }\<close>,
  with \<open>rows\<close> as accumulator. A cursor that has a next row yields it, so the branch
  for a missing row is never taken.
\<close>

fun remaining :: "cursor \<Rightarrow> nat" where
  "remaining (Cursor rs x) = length rs"

function collect_rows :: "cursor \<Rightarrow> row list \<Rightarrow> exn + row list" where
  "collect_rows result rows =
     (case hasNext result of
        Inl e \<Rightarrow> Inl e
      | Inr False \<Rightarrow> Inr rows
      | Inr True \<Rightarrow>
          (case getNext result of
             Inl e \<Rightarrow> Inl e
           | Inr (None, result') \<Rightarrow> Inr rows
           | Inr (Some r, result') \<Rightarrow> collect_rows result' (rows @ [r])))"
  by pat_completeness auto
termination
  by (relation "measure (\<lambda>(result, rows). remaining result)")
     (auto elim!: getNext.elims)

section \<open>kuzu-adapter.ts\<close>

subsection \<open>initKuzu\<close>

definition initSchema :: "'p engine \<Rightarrow> schema \<Rightarrow> 'p adapter \<Rightarrow> (exn + unit) \<times> 'p adapter" where
  "initSchema E sch =
     swallow
       (bindE (query E (NODE_SCHEMA sch)) (\<lambda>r1.
        bindE (query E (EDGE_SCHEMA sch)) (\<lambda>r2.
        bindE (query E (EMBEDDING_SCHEMA sch)) (\<lambda>r3.
        returnE ()))))"

definition initKuzu :: "'p engine \<Rightarrow> schema \<Rightarrow> 'p adapter \<Rightarrow> (exn + unit) \<times> 'p adapter" where
  "initKuzu E sch s =
     (if conn s \<noteq> None then returnE () s
      else tryCatch
        (bindE (await (kuzu_import E) EvImport) (\<lambda>kuzuModule.
         bindE (\<lambda>s. returnE () (s\<lparr>kuzu := Some KuzuModule\<rparr>)) (\<lambda>u1.
         bindE (await (kuzu_init E) EvInit) (\<lambda>u2.
         bindE (await (new_Database E) EvNewDatabase) (\<lambda>u3.
         bindE (\<lambda>s. returnE () (s\<lparr>db := Some Database\<rparr>)) (\<lambda>u4.
         bindE (await (new_Connection E) EvNewConnection) (\<lambda>u5.
         bindE (\<lambda>s. returnE () (s\<lparr>conn := Some Connection\<rparr>)) (\<lambda>u6.
         bindE (initSchema E sch) (\<lambda>u7.
         returnE ())))))))))
        (\<lambda>error. throwE error) s)"

text \<open>The guard \<^verbatim>\<open>if (!conn) { await initKuzu(); }\<close> that opens several operations.\<close>

definition lazy_init :: "'p engine \<Rightarrow> schema \<Rightarrow> 'p adapter \<Rightarrow> (exn + unit) \<times> 'p adapter" where
  "lazy_init E sch s = (if conn s = None then initKuzu E sch s else returnE () s)"

subsection \<open>loadGraphToKuzu\<close>

record load_result =
  success :: bool
  count :: int

definition copy_nodes_cypher :: "schema \<Rightarrow> jsstring \<Rightarrow> jsstring" where
  "copy_nodes_cypher sch nodesPath =
     js ''COPY '' @ NODE_TABLE_NAME sch
     @ js ''(id, label, name, filePath, startLine, endLine, content) FROM ''
     @ [DQUOTE] @ nodesPath @ [DQUOTE] @ js '' (HEADER=true, PARALLEL=false)''"

definition copy_edges_cypher :: "schema \<Rightarrow> jsstring \<Rightarrow> jsstring" where
  "copy_edges_cypher sch edgesPath =
     js ''COPY '' @ EDGE_TABLE_NAME sch @ js '' FROM ''
     @ [DQUOTE] @ edgesPath @ [DQUOTE] @ js '' (HEADER=true, PARALLEL=false)''"

definition count_nodes_cypher :: "schema \<Rightarrow> jsstring" where
  "count_nodes_cypher sch =
     js ''MATCH (n:'' @ NODE_TABLE_NAME sch @ js '') RETURN count(n) AS cnt''"

definition count_edges_cypher :: "schema \<Rightarrow> jsstring" where
  "count_edges_cypher sch =
     js ''MATCH ()-[r:'' @ EDGE_TABLE_NAME sch @ js '']->() RETURN count(r) AS cnt''"

text \<open>\<^verbatim>\<open>a || b\<close> on numbers that may be \<^verbatim>\<open>undefined\<close>: \<^verbatim>\<open>undefined\<close> and \<^verbatim>\<open>0\<close> are falsy.\<close>

definition or_else :: "int option \<Rightarrow> int option \<Rightarrow> int option" where
  "or_else a b = (if a = None \<or> a = Some 0 then b else a)"

text \<open>\<^verbatim>\<open>countRow ? countRow.cnt || countRow[0] || 0 : 0\<close>, then \<^verbatim>\<open>Number(nodeCount)\<close>.\<close>

definition load_nodeCount :: "row option \<Rightarrow> int" where
  "load_nodeCount countRow =
     (case countRow of
        None \<Rightarrow> 0
      | Some r \<Rightarrow>
          (case or_else (or_else (cnt r) (col0 r)) (Some 0) of
             Some n \<Rightarrow> n
           | None \<Rightarrow> 0))"

definition nodesPath :: jsstring where "nodesPath = js ''/nodes.csv''"
definition edgesPath :: jsstring where "edgesPath = js ''/edges.csv''"

text \<open>
  A call of a serializer inside the adapter: the text it computes, unless building it
  throws.
\<close>

definition serialize :: "'p engine \<Rightarrow> jsstring \<Rightarrow> 'p adapter \<Rightarrow> (exn + jsstring) \<times> 'p adapter" where
  "serialize E csv s =
     (case build_string E (trace s) csv of Inl e \<Rightarrow> (Inl e, s) | Inr u \<Rightarrow> (Inr csv, s))"

definition loadGraphToKuzu ::
  "'p engine \<Rightarrow> schema \<Rightarrow> KnowledgeGraph \<Rightarrow> (jsstring \<rightharpoonup> jsstring)
    \<Rightarrow> 'p adapter \<Rightarrow> (exn + load_result) \<times> 'p adapter" where
  "loadGraphToKuzu E sch graph fileContents =
     bindE (initKuzu E sch) (\<lambda>u0.
       tryCatch
         (bindE (serialize E (generateNodeCSV graph fileContents)) (\<lambda>nodesCSV.
          bindE (serialize E (generateEdgeCSV graph)) (\<lambda>edgesCSV.
          bindE (swallow (unlink E nodesPath)) (\<lambda>u1.
          bindE (swallow (unlink E edgesPath)) (\<lambda>u2.
          bindE (writeFile E nodesPath nodesCSV) (\<lambda>u3.
          bindE (writeFile E edgesPath edgesCSV) (\<lambda>u4.
          bindE (query E (copy_nodes_cypher sch nodesPath)) (\<lambda>r1.
          bindE (query E (copy_edges_cypher sch edgesPath)) (\<lambda>r2.
          bindE (query E (count_nodes_cypher sch)) (\<lambda>countRes.
          bindE (liftE (getNext countRes)) (\<lambda>countRow.
          bindE (swallow (unlink E nodesPath)) (\<lambda>u5.
          bindE (swallow (unlink E edgesPath)) (\<lambda>u6.
          returnE \<lparr>success = True, count = load_nodeCount (fst countRow)\<rparr>)))))))))))))
         (\<lambda>error. returnE \<lparr>success = False, count = 0\<rparr>))"

subsection \<open>executeQuery\<close>

definition executeQuery ::
  "'p engine \<Rightarrow> schema \<Rightarrow> jsstring \<Rightarrow> 'p adapter \<Rightarrow> (exn + row list) \<times> 'p adapter" where
  "executeQuery E sch cypher =
     bindE (lazy_init E sch) (\<lambda>u0.
       tryCatch
         (bindE (query E cypher) (\<lambda>result.
          liftE (collect_rows result [])))
         (\<lambda>error. throwE error))"

subsection \<open>getKuzuStats, isKuzuReady, closeKuzu\<close>

record kuzu_stats =
  stat_nodes :: int
  stat_edges :: int

text \<open>\<^verbatim>\<open>row ? (row.cnt ?? row[0] ?? 0) : 0\<close>: only \<^verbatim>\<open>undefined\<close> falls through.\<close>

definition stats_count :: "row option \<Rightarrow> int" where
  "stats_count r =
     (case r of
        None \<Rightarrow> 0
      | Some x \<Rightarrow> (case cnt x of Some n \<Rightarrow> n
                  | None \<Rightarrow> (case col0 x of Some n \<Rightarrow> n | None \<Rightarrow> 0)))"

definition getKuzuStats ::
  "'p engine \<Rightarrow> schema \<Rightarrow> 'p adapter \<Rightarrow> (exn + kuzu_stats) \<times> 'p adapter" where
  "getKuzuStats E sch s =
     (if conn s = None then returnE \<lparr>stat_nodes = 0, stat_edges = 0\<rparr> s
      else tryCatch
        (bindE (query E (count_nodes_cypher sch)) (\<lambda>nodeResult.
         bindE (query E (count_edges_cypher sch)) (\<lambda>edgeResult.
         bindE (liftE (getNext nodeResult)) (\<lambda>nodeRow.
         bindE (liftE (getNext edgeResult)) (\<lambda>edgeRow.
         returnE \<lparr>stat_nodes = stats_count (fst nodeRow),
                  stat_edges = stats_count (fst edgeRow)\<rparr>)))))
        (\<lambda>error. returnE \<lparr>stat_nodes = 0, stat_edges = 0\<rparr>) s)"

definition isKuzuReady :: "'p adapter \<Rightarrow> bool" where
  "isKuzuReady s \<longleftrightarrow> conn s \<noteq> None \<and> db s \<noteq> None"

definition closeKuzu :: "'p engine \<Rightarrow> 'p adapter \<Rightarrow> (exn + unit) \<times> 'p adapter" where
  "closeKuzu E =
     bindE (\<lambda>s. if conn s \<noteq> None
                then bindE (swallow (await (conn_close E) EvConnClose))
                       (\<lambda>u s. returnE () (s\<lparr>conn := None\<rparr>)) s
                else returnE () s) (\<lambda>u1.
     bindE (\<lambda>s. if db s \<noteq> None
                then bindE (swallow (await (db_close E) EvDbClose))
                       (\<lambda>u s. returnE () (s\<lparr>db := None\<rparr>)) s
                else returnE () s) (\<lambda>u2 s.
     returnE () (s\<lparr>kuzu := None\<rparr>)))"

subsection \<open>executePrepared\<close>

definition prepare_failed :: "jsstring \<Rightarrow> exn" where
  "prepare_failed errMsg = Error (js ''Prepare failed: '' @ errMsg)"

definition executePrepared ::
  "'p engine \<Rightarrow> schema \<Rightarrow> jsstring \<Rightarrow> 'p \<Rightarrow> 'p adapter \<Rightarrow> (exn + row list) \<times> 'p adapter" where
  "executePrepared E sch cypher params =
     bindE (lazy_init E sch) (\<lambda>u0.
       tryCatch
         (bindE (prepare E cypher) (\<lambda>st.
          bindE (if \<not> isSuccess st then throwE (prepare_failed (getErrorMessage st))
                 else returnE ()) (\<lambda>u1.
          bindE (execute E st params) (\<lambda>result.
          bindE (liftE (collect_rows result [])) (\<lambda>rows.
          bindE (close_stmt E st) (\<lambda>u2.
          returnE rows))))))
         (\<lambda>error. throwE error))"

subsection \<open>executeWithReusedStatement\<close>

definition SUB_BATCH_SIZE :: nat where "SUB_BATCH_SIZE = 4"

text \<open>\<^verbatim>\<open>for (const params of subBatch) { await conn.execute(stmt, params); }\<close>\<close>

primrec execute_each :: "'p engine \<Rightarrow> stmt \<Rightarrow> 'p list \<Rightarrow> 'p adapter \<Rightarrow> (exn + unit) \<times> 'p adapter" where
  "execute_each E st [] = returnE ()"
| "execute_each E st (params # rest) =
     bindE (execute E st params) (\<lambda>result. execute_each E st rest)"

text \<open>The body of the outer loop at index \<open>i\<close>.\<close>

definition sub_batch_body ::
  "'p engine \<Rightarrow> jsstring \<Rightarrow> 'p list \<Rightarrow> nat \<Rightarrow> 'p adapter \<Rightarrow> (exn + unit) \<times> 'p adapter" where
  "sub_batch_body E cypher paramsList i =
     (let subBatch = slice paramsList (int i) (int (i + SUB_BATCH_SIZE))
      in bindE (prepare E cypher) (\<lambda>st.
         bindE (if \<not> isSuccess st then throwE (prepare_failed (getErrorMessage st))
                else returnE ()) (\<lambda>u1.
         bindE (tryFinally (execute_each E st subBatch) (close_stmt E st)) (\<lambda>u2.
         if i + SUB_BATCH_SIZE < length paramsList
         then await (\<lambda>h. Inr ()) EvTimeout
         else returnE ()))))"

function batch_loop ::
  "'p engine \<Rightarrow> jsstring \<Rightarrow> 'p list \<Rightarrow> nat \<Rightarrow> 'p adapter \<Rightarrow> (exn + unit) \<times> 'p adapter" where
  "batch_loop E cypher paramsList i s =
     (if i < length paramsList then
        (case sub_batch_body E cypher paramsList i s of
           (Inl e, s') \<Rightarrow> (Inl e, s')
         | (Inr u, s') \<Rightarrow> batch_loop E cypher paramsList (i + SUB_BATCH_SIZE) s')
      else (Inr (), s))"
  by pat_completeness auto
termination
  by (relation "measure (\<lambda>(E, cypher, paramsList, i, s). length paramsList - i)")
     (auto simp: SUB_BATCH_SIZE_def)

declare batch_loop.simps [simp del]

definition executeWithReusedStatement ::
  "'p engine \<Rightarrow> schema \<Rightarrow> jsstring \<Rightarrow> 'p list \<Rightarrow> 'p adapter \<Rightarrow> (exn + unit) \<times> 'p adapter" where
  "executeWithReusedStatement E sch cypher paramsList =
     bindE (lazy_init E sch) (\<lambda>u0.
       if length paramsList = 0 then returnE ()
       else batch_loop E cypher paramsList 0)"

section \<open>ingestion.worker.ts\<close>

text \<open>
  The worker's module-level variables \<^verbatim>\<open>kuzuAdapter\<close> (the lazily imported adapter
  module, \<open>False\<close> while it is \<^verbatim>\<open>null\<close>) and \<^verbatim>\<open>isEmbeddingComplete\<close>, together with the
  state of the adapter module itself.
\<close>

record 'p worker =
  kuzuAdapter :: bool
  isEmbeddingComplete :: bool
  adapter_state :: "'p adapter"

text \<open>
  \<^verbatim>\<open>getKuzuAdapter\<close>: the dynamic import happens once; it may fail, and \<open>import_adapter\<close>
  gives its outcome.
\<close>

definition getKuzuAdapter ::
  "('p event list \<Rightarrow> exn + unit) \<Rightarrow> 'p worker \<Rightarrow> (exn + unit) \<times> 'p worker" where
  "getKuzuAdapter import_adapter w =
     (if \<not> kuzuAdapter w then
        (let a = adapter_state w;
             w' = w\<lparr>adapter_state := a\<lparr>trace := trace a @ [EvImportAdapter]\<rparr>\<rparr>
         in case import_adapter (trace a) of
              Inl e \<Rightarrow> (Inl e, w')
            | Inr u \<Rightarrow> (Inr (), w'\<lparr>kuzuAdapter := True\<rparr>))
      else (Inr (), w))"

definition database_not_ready :: exn where
  "database_not_ready = Error (js ''Database not ready. Please load a repository first.'')"

definition embeddings_not_ready :: exn where
  "embeddings_not_ready =
     Error (js ''Embeddings not ready. Please wait for embedding pipeline to complete.'')"

text \<open>
  \<^verbatim>\<open>doSemanticSearch\<close> and \<^verbatim>\<open>doSemanticSearchWithContext\<close> come from
  \<^verbatim>\<open>../core/embeddings/embedding-pipeline\<close>; they are parameters here, whatever they do.
\<close>

definition semanticSearch ::
  "('p event list \<Rightarrow> exn + unit)
    \<Rightarrow> ('q \<Rightarrow> 'k \<Rightarrow> 'd \<Rightarrow> 'p worker \<Rightarrow> (exn + 'r) \<times> 'p worker)
    \<Rightarrow> 'q \<Rightarrow> 'k \<Rightarrow> 'd \<Rightarrow> 'p worker \<Rightarrow> (exn + 'r) \<times> 'p worker" where
  "semanticSearch import_adapter doSemanticSearch query' k maxDistance =
     bindE (getKuzuAdapter import_adapter) (\<lambda>kuzu' w.
       if \<not> isKuzuReady (adapter_state w) then throwE database_not_ready w
       else if \<not> isEmbeddingComplete w then throwE embeddings_not_ready w
       else doSemanticSearch query' k maxDistance w)"

definition semanticSearchWithContext ::
  "('p event list \<Rightarrow> exn + unit)
    \<Rightarrow> ('q \<Rightarrow> 'k \<Rightarrow> 'h \<Rightarrow> 'p worker \<Rightarrow> (exn + 'r) \<times> 'p worker)
    \<Rightarrow> 'q \<Rightarrow> 'k \<Rightarrow> 'h \<Rightarrow> 'p worker \<Rightarrow> (exn + 'r) \<times> 'p worker" where
  "semanticSearchWithContext import_adapter doSemanticSearchWithContext query' k hops =
     bindE (getKuzuAdapter import_adapter) (\<lambda>kuzu' w.
       if \<not> isKuzuReady (adapter_state w) then throwE database_not_ready w
       else if \<not> isEmbeddingComplete w then throwE embeddings_not_ready w
       else doSemanticSearchWithContext query' k hops w)"

section \<open>Notions of the specification, and inputs for the examples\<close>

subsection \<open>Sanitization as the specification words it\<close>

definition high_surrogate :: "code_unit \<Rightarrow> bool" where
  "high_surrogate c \<longleftrightarrow> 0xD800 \<le> c \<and> c \<le> 0xDBFF"

definition low_surrogate :: "code_unit \<Rightarrow> bool" where
  "low_surrogate c \<longleftrightarrow> 0xDC00 \<le> c \<and> c \<le> 0xDFFF"

text \<open>
  The reading in which only lone surrogates go: a high surrogate directly followed by a
  low one is a well-formed pair and stays.
\<close>

fun claimed_sanitizeUTF8 :: "jsstring \<Rightarrow> jsstring" where
  "claimed_sanitizeUTF8 [] = []"
| "claimed_sanitizeUTF8 [c] =
     (if control_class c \<or> surrogate_class c \<or> nonchar_class c then [] else [c])"
| "claimed_sanitizeUTF8 (c # d # rest) =
     (if high_surrogate c \<and> low_surrogate d then c # d # claimed_sanitizeUTF8 rest
      else if control_class c \<or> surrogate_class c \<or> nonchar_class c
           then claimed_sanitizeUTF8 (d # rest)
           else c # claimed_sanitizeUTF8 (d # rest))"

text \<open>
  What the code removes: the ASCII control characters (codes below 32, and 127) other
  than tab, newline and carriage return; every surrogate code unit; U+FFFE and U+FFFF.
\<close>

definition removed_code_unit :: "code_unit \<Rightarrow> bool" where
  "removed_code_unit c \<longleftrightarrow>
     ((c < 0x20 \<or> c = 0x7F) \<and> c \<noteq> 0x09 \<and> c \<noteq> 0x0A \<and> c \<noteq> 0x0D)
     \<or> (0xD800 \<le> c \<and> c \<le> 0xDFFF)
     \<or> c = 0xFFFE \<or> c = 0xFFFF"

subsection \<open>The control-character ranges of the binary heuristic\<close>

definition control_code :: "code_unit \<Rightarrow> bool" where
  "control_code c \<longleftrightarrow> unat c \<in> {0..8} \<union> {14..31} \<union> {127}"

subsection \<open>Sub-batches and the calls expected for them\<close>

function sub_batches :: "nat \<Rightarrow> 'a list \<Rightarrow> 'a list list" where
  "sub_batches n xs = (if n = 0 \<or> xs = [] then [] else take n xs # sub_batches n (drop n xs))"
  by pat_completeness auto
termination
  by (relation "measure (\<lambda>(n, xs). length xs)") auto

declare sub_batches.simps [simp del]

text \<open>One preparation cycle: prepare, execute each parameter set in order, release.\<close>

definition cycle_events :: "jsstring \<Rightarrow> 'p list \<Rightarrow> 'p event list" where
  "cycle_events cypher batch = [EvPrepare cypher] @ map EvExecute batch @ [EvStmtClose]"

text \<open>The cycles of consecutive sub-batches, with one timeout tick between two of them.\<close>

fun batch_events :: "jsstring \<Rightarrow> 'p list list \<Rightarrow> 'p event list" where
  "batch_events cypher [] = []"
| "batch_events cypher [b] = cycle_events cypher b"
| "batch_events cypher (b # b' # bs) =
     cycle_events cypher b @ [EvTimeout] @ batch_events cypher (b' # bs)"

text \<open>The parameter sets a trace executes, in order.\<close>

primrec executed :: "'p event list \<Rightarrow> 'p list" where
  "executed [] = []"
| "executed (ev # evs) = (case ev of EvExecute p \<Rightarrow> p # executed evs | _ \<Rightarrow> executed evs)"

subsection \<open>The schema statements an initialisation issues\<close>

text \<open>
  The three statements are issued in order until one fails; the failure is ignored and
  the remaining ones are skipped. \<open>h\<close> is the trace before the first.
\<close>

definition schema_queries :: "'p engine \<Rightarrow> schema \<Rightarrow> 'p event list \<Rightarrow> jsstring list" where
  "schema_queries E sch h =
     (case conn_query E h (NODE_SCHEMA sch) of
        Inl e \<Rightarrow> [NODE_SCHEMA sch]
      | Inr r1 \<Rightarrow>
          (case conn_query E (h @ [EvQuery (NODE_SCHEMA sch)]) (EDGE_SCHEMA sch) of
             Inl e \<Rightarrow> [NODE_SCHEMA sch, EDGE_SCHEMA sch]
           | Inr r2 \<Rightarrow> [NODE_SCHEMA sch, EDGE_SCHEMA sch, EMBEDDING_SCHEMA sch]))"

text \<open>The calls of a successful initialisation, made from the trace \<open>h\<close>.\<close>

definition init_events :: "'p engine \<Rightarrow> schema \<Rightarrow> 'p event list \<Rightarrow> 'p event list" where
  "init_events E sch h =
     [EvImport, EvInit, EvNewDatabase, EvNewConnection]
     @ map EvQuery (schema_queries E sch (h @ [EvImport, EvInit, EvNewDatabase, EvNewConnection]))"

subsection \<open>The outcome of a bulk load once the adapter is initialised\<close>

text \<open>
  The steps of the load sequence that may fail, each at the trace it is made at: \<open>h\<close> is
  the trace when the sequence starts. They are the serialization of the nodes and of
  the edges, the two writes of the staging files, the two COPY statements, the count
  query and the read of its row. The two removals of stale files stand between the
  serialization and the writes; their failures are ignored. The value is the first
  error, or else what the read of the row gives.
\<close>

definition verification_query ::
  "'p engine \<Rightarrow> schema \<Rightarrow> KnowledgeGraph \<Rightarrow> (jsstring \<rightharpoonup> jsstring) \<Rightarrow> 'p event list
    \<Rightarrow> exn + (row option \<times> cursor)" where
  "verification_query E sch graph fileContents h =
     (let nodesCSV = generateNodeCSV graph fileContents;
          edgesCSV = generateEdgeCSV graph;
          h0 = h @ [EvUnlink nodesPath, EvUnlink edgesPath];
          h1 = h0 @ [EvWriteFile nodesPath nodesCSV];
          h2 = h1 @ [EvWriteFile edgesPath edgesCSV];
          h3 = h2 @ [EvQuery (copy_nodes_cypher sch nodesPath)];
          h4 = h3 @ [EvQuery (copy_edges_cypher sch edgesPath)]
      in case build_string E h nodesCSV of Inl e \<Rightarrow> Inl e | Inr b1 \<Rightarrow>
        (case build_string E h edgesCSV of Inl e \<Rightarrow> Inl e | Inr b2 \<Rightarrow>
        (case fs_writeFile E h0 nodesPath nodesCSV of Inl e \<Rightarrow> Inl e | Inr u1 \<Rightarrow>
        (case fs_writeFile E h1 edgesPath edgesCSV of Inl e \<Rightarrow> Inl e | Inr u2 \<Rightarrow>
        (case conn_query E h2 (copy_nodes_cypher sch nodesPath) of Inl e \<Rightarrow> Inl e | Inr r1 \<Rightarrow>
        (case conn_query E h3 (copy_edges_cypher sch edgesPath) of Inl e \<Rightarrow> Inl e | Inr r2 \<Rightarrow>
        (case conn_query E h4 (count_nodes_cypher sch) of Inl e \<Rightarrow> Inl e | Inr countRes \<Rightarrow>
           getNext countRes)))))))"

subsection \<open>Example inputs\<close>

definition function_node :: "int option \<Rightarrow> int option \<Rightarrow> GraphNode" where
  "function_node s e =
     \<lparr>node_id = js ''f'', label = js ''Function'',
      properties = \<lparr>name = js ''f'', filePath = js ''a.py'', startLine = s, endLine = e\<rparr>\<rparr>"

text \<open>A file of four lines: \<open>a\<close>, \<open>b\<close>, \<open>c\<close>, \<open>d\<close>.\<close>

definition four_lines :: jsstring where
  "four_lines = [0x61, LF, 0x62, LF, 0x63, LF, 0x64]"

definition example_schema :: schema where
  "example_schema =
     \<lparr>NODE_SCHEMA = js ''NODE_SCHEMA'', EDGE_SCHEMA = js ''EDGE_SCHEMA'',
      EMBEDDING_SCHEMA = js ''EMBEDDING_SCHEMA'',
      NODE_TABLE_NAME = js ''CodeNode'', EDGE_TABLE_NAME = js ''CodeRelation''\<rparr>"

definition example_graph :: KnowledgeGraph where
  "example_graph = \<lparr>nodes = [function_node (Some 0) (Some 1)], relationships = []\<rparr>"

text \<open>An engine on which every call succeeds; every query yields one row with count 3.\<close>

definition ok_engine :: "nat engine" where
  "ok_engine =
     \<lparr>kuzu_import = (\<lambda>h. Inr ()),
      kuzu_init = (\<lambda>h. Inr ()),
      new_Database = (\<lambda>h. Inr ()),
      new_Connection = (\<lambda>h. Inr ()),
      conn_query = (\<lambda>h cypher. Inr (Cursor [\<lparr>cnt = Some 3, col0 = None\<rparr>] None)),
      conn_prepare = (\<lambda>h cypher. Inr \<lparr>isSuccess = True, getErrorMessage = []\<rparr>),
      conn_execute = (\<lambda>h st params. Inr (Cursor [] None)),
      stmt_close = (\<lambda>h st. Inr ()),
      fs_unlink = (\<lambda>h path. Inr ()),
      fs_writeFile = (\<lambda>h path data. Inr ()),
      conn_close = (\<lambda>h. Inr ()),
      db_close = (\<lambda>h. Inr ()),
      build_string = (\<lambda>h text. Inr ())\<rparr>"

text \<open>The same engine, except that executing a prepared statement throws.\<close>

definition execute_fails_engine :: "nat engine" where
  "execute_fails_engine =
     ok_engine\<lparr>conn_execute := (\<lambda>h st params. Inl (Error (js ''execute failed'')))\<rparr>"

text \<open>The same engine, except that loading the \<^verbatim>\<open>kuzu-wasm\<close> module fails.\<close>

definition import_fails_engine :: "nat engine" where
  "import_fails_engine = ok_engine\<lparr>kuzu_import := (\<lambda>h. Inl (Error (js ''import failed'')))\<rparr>"

text \<open>The same engine, except that the runtime fails to build the text of the nodes.\<close>

definition serialization_fails_engine :: "nat engine" where
  "serialization_fails_engine =
     ok_engine\<lparr>build_string := (\<lambda>h text. Inl (Error (js ''Invalid string length'')))\<rparr>"

text \<open>The same engine, except that writing a staging file fails.\<close>

definition write_fails_engine :: "nat engine" where
  "write_fails_engine = ok_engine\<lparr>fs_writeFile := (\<lambda>h path data. Inl (Error (js ''disk full'')))\<rparr>"

definition fresh_adapter :: "nat adapter" where
  "fresh_adapter = \<lparr>kuzu = None, db = None, conn = None, trace = []\<rparr>"

definition ready_adapter :: "nat adapter" where
  "ready_adapter =
     \<lparr>kuzu = Some KuzuModule, db = Some Database, conn = Some Connection, trace = []\<rparr>"

definition fresh_worker :: "nat worker" where
  "fresh_worker =
     \<lparr>kuzuAdapter = False, isEmbeddingComplete = False, adapter_state = fresh_adapter\<rparr>"

text \<open>A worker whose adapter is initialised and whose embedding phase has not completed.\<close>

definition loaded_worker :: "nat worker" where
  "loaded_worker =
     \<lparr>kuzuAdapter = True, isEmbeddingComplete = False, adapter_state = ready_adapter\<rparr>"

text \<open>A search that would answer with the empty sequence, were it ever reached.\<close>

definition empty_search ::
  "jsstring \<Rightarrow> nat \<Rightarrow> rat \<Rightarrow> nat worker \<Rightarrow> (exn + nat list) \<times> nat worker" where
  "empty_search q k d w = (Inr [], w)"

section \<open>Properties of the CSV serializer\<close>

subsection \<open>Strings, lines and slices\<close>

lemma split_on_nonempty: "split_on sep s \<noteq> []"
  by (induction s) (auto split: list.splits)

lemma join_split_on: "join [sep] (split_on sep s) = s"
proof (induction s)
  case Nil
  then show ?case by simp
next
  case (Cons c cs)
  obtain p ps where sp: "split_on sep cs = p # ps"
    using split_on_nonempty [of sep cs] by (cases "split_on sep cs") auto
  show ?case
  proof (cases "c = sep")
    case True
    with Cons sp show ?thesis by simp
  next
    case False
    with Cons sp show ?thesis by (cases ps) auto
  qed
qed

lemma split_on_no_sep: "p \<in> set (split_on sep s) \<Longrightarrow> sep \<notin> set p"
  by (induction s arbitrary: p) (auto split: list.splits if_splits)

lemma take_drop_nth: "n \<le> length xs \<Longrightarrow> take (n - k) (drop k xs) = map ((!) xs) [k..<n]"
  by (auto simp: list_eq_iff_nth_eq)

lemma slice_range:
  "0 \<le> a \<Longrightarrow> 0 \<le> b \<Longrightarrow> b \<le> int (length xs) \<Longrightarrow> slice xs a b = map ((!) xs) [nat a..<nat b]"
  unfolding slice_def slice_index_def Let_def
  apply (cases "nat a \<le> length xs")
   apply (simp add: take_drop_nth min_def)
  apply (simp add: min_def)
  done

lemma slice_prefix: "slice xs 0 (int n) = take n xs"
  by (simp add: slice_def slice_index_def min_def)

lemma slice_prefix_numeral: "slice xs 0 (numeral n) = take (numeral n) xs"
  using slice_prefix [of xs "numeral n"] by simp

lemma join_slice_empty_line: "join sep (slice [[]] i j) = []"
proof -
  have "join sep (take n (drop m [[]])) = []" for n m
    by (cases m; cases n) simp_all
  then show ?thesis by (simp add: slice_def Let_def)
qed

lemma js_Function_neq [simp]:
  "js ''Function'' \<noteq> js ''Folder''" "js ''Function'' \<noteq> js ''File''"
  by (simp_all add: js_def)

subsection \<open>Sanitization\<close>

lemma control_class_iff:
  "control_class c \<longleftrightarrow> (c < 0x20 \<or> c = 0x7F) \<and> c \<noteq> 9 \<and> c \<noteq> 10 \<and> c \<noteq> 13"
  unfolding control_class_def
  apply (simp add: word_le_nat_alt word_less_nat_alt word_unat_eq_iff)
  apply arith
  done

text \<open>
  C4, as the code has it: \<open>sanitizeUTF8\<close> keeps the code units of its input in order and
  drops exactly the ASCII control characters other than tab, newline and carriage
  return, every surrogate code unit (paired or lone), and U+FFFE and U+FFFF.
\<close>

theorem sanitizeUTF8_removes_exactly:
  "sanitizeUTF8 s = filter (\<lambda>c. \<not> removed_code_unit c) s"
proof -
  have "(\<not> nonchar_class c \<and> \<not> surrogate_class c \<and> \<not> control_class c) = (\<not> removed_code_unit c)" for c
    by (auto simp: removed_code_unit_def control_class_iff surrogate_class_def nonchar_class_def)
  then show ?thesis
    by (simp add: sanitizeUTF8_def remove_class_def conj_commute conj_left_commute)
qed

text \<open>
  C4, an instance: of \<open>A\<close>, NUL, tab, vertical tab, the surrogate pair of U+1F600, U+FFFF
  and U+F600, only \<open>A\<close>, the tab and U+F600 remain.
\<close>

theorem sanitizeUTF8_removes_exactly_witness:
  "sanitizeUTF8 [0x41, 0x00, 0x09, 0x0B, 0xD83D, 0xDE00, 0xFFFF, 0xF600] = [0x41, 0x09, 0xF600]"
  using sanitizeUTF8_removes_exactly [of "[0x41, 0x00, 0x09, 0x0B, 0xD83D, 0xDE00, 0xFFFF, 0xF600]"]
  by (simp add: removed_code_unit_def)

text \<open>
  C4 as stated fails: the well-formed surrogate pair D83D DE00 (U+1F600) would be
  preserved, and the code removes both of its code units.
\<close>

theorem sanitizeUTF8_surrogate_pair_counterexample:
  "claimed_sanitizeUTF8 [0xD83D, 0xDE00] = [0xD83D, 0xDE00] \<and> sanitizeUTF8 [0xD83D, 0xDE00] = []"
  by (simp add: sanitizeUTF8_def remove_class_def control_class_def surrogate_class_def
      nonchar_class_def high_surrogate_def low_surrogate_def)

subsection \<open>Escaping and reading back\<close>

lemma rfc4180_escaped_double_quotes: "rfc4180_escaped (double_quotes t @ [DQUOTE]) = Some t"
  by (induction t) (simp_all add: double_quotes_def)

lemma double_quotes_count:
  "length (filter (\<lambda>c. c = DQUOTE) (double_quotes t)) = 2 * length (filter (\<lambda>c. c = DQUOTE) t)"
  by (induction t) (simp_all add: double_quotes_def)

lemma double_quotes_others:
  "filter (\<lambda>c. c \<noteq> DQUOTE) (double_quotes t) = filter (\<lambda>c. c \<noteq> DQUOTE) t"
  by (induction t) (simp_all add: double_quotes_def)

text \<open>
  C1: for every string \<open>s\<close>, the escaped field is the sanitized string between two double
  quotes, with each of its double quotes doubled and nothing else changed; an RFC 4180
  reader gives back the sanitized string from it; \<^verbatim>\<open>undefined\<close> and \<^verbatim>\<open>null\<close> become the
  empty quoted field, which reads back as the empty string.
\<close>

theorem escapeCSVField_roundtrip:
  "escapeCSVField (Str s) = [DQUOTE] @ double_quotes (sanitizeUTF8 s) @ [DQUOTE]
   \<and> length (filter (\<lambda>c. c = DQUOTE) (double_quotes (sanitizeUTF8 s)))
       = 2 * length (filter (\<lambda>c. c = DQUOTE) (sanitizeUTF8 s))
   \<and> filter (\<lambda>c. c \<noteq> DQUOTE) (double_quotes (sanitizeUTF8 s))
       = filter (\<lambda>c. c \<noteq> DQUOTE) (sanitizeUTF8 s)
   \<and> rfc4180_field (escapeCSVField (Str s)) = Some (sanitizeUTF8 s)
   \<and> escapeCSVField Undefined = [DQUOTE, DQUOTE]
   \<and> escapeCSVField Null = [DQUOTE, DQUOTE]
   \<and> rfc4180_field [DQUOTE, DQUOTE] = Some []"
  by (simp add: double_quotes_count double_quotes_others rfc4180_field_def
      rfc4180_escaped_double_quotes)

text \<open>
  C1, an instance: the string \<open>a,"b"\<close>, a newline, a NUL and \<open>c\<close> reads back without
  the NUL.
\<close>

theorem escapeCSVField_roundtrip_witness:
  "rfc4180_field (escapeCSVField (Str [0x61, COMMA, DQUOTE, 0x62, DQUOTE, LF, 0x00, 0x63]))
     = Some [0x61, COMMA, DQUOTE, 0x62, DQUOTE, LF, 0x63]"
  using escapeCSVField_roundtrip [of "[0x61, COMMA, DQUOTE, 0x62, DQUOTE, LF, 0x00, 0x63]"]
  by (simp add: sanitizeUTF8_def remove_class_def control_class_def surrogate_class_def
      nonchar_class_def COMMA_def DQUOTE_def LF_def)

subsection \<open>Binary detection\<close>

lemma count_nonPrintable_filter:
  "count_nonPrintable xs n = n + length (filter nonPrintable_code xs)"
  by (induction xs arbitrary: n) auto

lemma ratio_gt_tenth: "0 < b \<Longrightarrow> ((1::rat) / 10 < of_nat a / of_nat b) = (b < 10 * a)"
proof -
  assume b: "0 < b"
  have "((of_nat b :: rat) < of_nat (10 * a)) = (b < 10 * a)"
    by (rule of_nat_less_iff)
  with b show ?thesis
    by (simp add: field_simps)
qed

lemma isBinaryContent_count:
  "isBinaryContent content \<longleftrightarrow>
     (let sample = take (min 1000 (length content)) content
      in 10 * length (filter nonPrintable_code sample) > length sample)"
proof (cases "content = []")
  case True
  then show ?thesis by (simp add: isBinaryContent_def)
next
  case False
  have s: "slice content 0 1000 = take 1000 content"
    using slice_prefix [of content 1000] by simp
  have l: "0 < length (take 1000 content)"
    using False by simp
  have t: "take (min 1000 (length content)) content = take 1000 content"
    by (simp add: min_def)
  show ?thesis
    unfolding isBinaryContent_def Let_def s t
    using False ratio_gt_tenth [OF l]
    by (simp add: count_nonPrintable_filter)
qed

lemma nonPrintable_code_iff: "nonPrintable_code c \<longleftrightarrow> unat c \<in> {0..8} \<union> {14..31} \<union> {127}"
  unfolding nonPrintable_code_def
  apply (simp add: word_le_nat_alt word_less_nat_alt word_unat_eq_iff)
  apply arith
  done

lemma isBinaryContent_nonempty: "isBinaryContent content \<Longrightarrow> content \<noteq> []"
  by (auto simp: isBinaryContent_def)

lemma isBinaryContent_example: "isBinaryContent [0x00, 0x01, 0x41]"
  by (simp add: isBinaryContent_count nonPrintable_code_def)

text \<open>
  C6: \<open>isBinaryContent\<close> holds exactly when, among the first \<open>min 1000 (length content)\<close>
  characters, those with a code in 0..8, 14..31 or equal to 127 number strictly more
  than a tenth of the sample; it is false on the empty string and on every text without
  such characters.
\<close>

theorem isBinaryContent_iff:
  "(isBinaryContent content \<longleftrightarrow>
      (let sample = take (min 1000 (length content)) content
       in 10 * length (filter control_code sample) > length sample))
   \<and> \<not> isBinaryContent []
   \<and> ((\<forall>c \<in> set content. \<not> control_code c) \<longrightarrow> \<not> isBinaryContent content)"
proof -
  have eq: "nonPrintable_code = control_code"
    by (rule ext) (simp add: nonPrintable_code_iff control_code_def)
  have "filter control_code (take (min 1000 (length content)) content) = []"
    if "\<forall>c \<in> set content. \<not> control_code c"
    using that by (auto simp: filter_empty_conv dest: in_set_takeD)
  then show ?thesis
    by (auto simp: isBinaryContent_count eq Let_def)
qed

text \<open>
  C6, two instances: one NUL among three characters is more than a tenth; a line of
  source text has no control character.
\<close>

theorem isBinaryContent_iff_witness:
  "isBinaryContent [0x00, 0x41, 0x42] \<and> \<not> isBinaryContent (js ''const x = 1;'')"
  using isBinaryContent_iff [of "[0x00, 0x41, 0x42]"] isBinaryContent_iff [of "js ''const x = 1;''"]
  by (simp add: control_code_def js_def)

subsection \<open>Content extraction\<close>

text \<open>
  C10: for a node that is not a Folder, whose file content is present and classified
  binary, \<open>extractContent\<close> is the placeholder, whatever the label and the line numbers.
\<close>

theorem extractContent_binary_placeholder:
  assumes "label node \<noteq> js ''Folder''"
    and "fileContents (filePath (properties node)) = Some content"
    and "isBinaryContent content"
  shows "extractContent node fileContents = binary_placeholder"
  using assms isBinaryContent_nonempty [of content]
  by (simp add: extractContent_def)

text \<open>C10, an instance: a Function node with both line numbers, over a binary file.\<close>

theorem extractContent_binary_placeholder_witness:
  "label (function_node (Some 0) (Some 1)) \<noteq> js ''Folder''
   \<and> isBinaryContent [0x00, 0x01, 0x41]
   \<and> extractContent (function_node (Some 0) (Some 1)) [js ''a.py'' \<mapsto> [0x00, 0x01, 0x41]]
       = binary_placeholder"
  using extractContent_binary_placeholder
    [of "function_node (Some 0) (Some 1)" "[js ''a.py'' \<mapsto> [0x00, 0x01, 0x41]]" "[0x00, 0x01, 0x41]"]
    isBinaryContent_example
  by (simp add: function_node_def)

text \<open>
  C5 as stated fails: a Function node without line numbers over a binary file does not
  get the empty string but the placeholder, since the binary test comes first.
\<close>

theorem extractContent_missing_lines_counterexample:
  "extractContent (function_node None None) [js ''a.py'' \<mapsto> [0x00, 0x01, 0x41]] = binary_placeholder
   \<and> binary_placeholder \<noteq> []"
  using isBinaryContent_example
  by (simp add: extractContent_def function_node_def binary_placeholder_def js_def)

lemma truncate_length:
  "length (if length snippet > MAX_SNIPPET
           then slice snippet 0 (int MAX_SNIPPET) @ truncation_marker else snippet)
    \<le> 5000 + length truncation_marker"
  by (simp add: slice_prefix_numeral MAX_SNIPPET_def)

text \<open>
  C5, amended: for a node whose label is neither File nor Folder and whose file content
  is present and not classified binary: without \<open>startLine\<close> or without \<open>endLine\<close> the
  result is empty; with both (and \<open>endLine\<close> at least \<open>-3\<close>, so for all line numbers from
  0 on) it is the lines of the file from index \<open>max 0 (startLine - 2)\<close> through
  \<open>min (number of lines - 1) (endLine + 2)\<close>, joined by newlines, cut to 5000 characters
  with the marker appended when longer; in every case its length is at most 5000 plus
  the length of the marker. The lines are the pieces of the content between newlines:
  joined by newlines they give the content back, and none holds a newline.
\<close>

theorem extractContent_code_element:
  assumes "label node \<noteq> js ''File''" and "label node \<noteq> js ''Folder''"
    and "fileContents (filePath (properties node)) = Some content"
    and "\<not> isBinaryContent content"
  shows "(startLine (properties node) = None \<or> endLine (properties node) = None
            \<longrightarrow> extractContent node fileContents = [])
    \<and> (\<forall>s e. startLine (properties node) = Some s \<and> endLine (properties node) = Some e \<and> - 3 \<le> e \<longrightarrow>
          (let lines = split_on LF content;
               a = max 0 (s - 2);
               b = min (int (length lines) - 1) (e + 2);
               snippet = join [LF] (map ((!) lines) [nat a..<nat (b + 1)])
           in extractContent node fileContents =
                (if length snippet > 5000 then take 5000 snippet @ truncation_marker else snippet)))
    \<and> length (extractContent node fileContents) \<le> 5000 + length truncation_marker
    \<and> join [LF] (split_on LF content) = content
    \<and> (\<forall>l \<in> set (split_on LF content). LF \<notin> set l)"
proof (intro conjI allI impI ballI)
  assume "startLine (properties node) = None \<or> endLine (properties node) = None"
  with assms show "extractContent node fileContents = []"
    by (auto simp: extractContent_def split: option.splits)
next
  fix s e
  assume se: "startLine (properties node) = Some s \<and> endLine (properties node) = Some e \<and> - 3 \<le> e"
  define lines where "lines = split_on LF content"
  define a where "a = max 0 (s - 2)"
  define b where "b = min (int (length lines) - 1) (e + 2)"
  have ne: "lines \<noteq> []" by (simp add: lines_def split_on_nonempty)
  then have len: "1 \<le> length lines" by (cases lines) auto
  have "0 \<le> a" "0 \<le> b + 1" "b + 1 \<le> int (length lines)"
    using se len by (auto simp: a_def b_def)
  then have sl: "slice lines a (b + 1) = map ((!) lines) [nat a..<nat (b + 1)]"
    by (rule slice_range)
  show "let lines = split_on LF content;
            a = max 0 (s - 2);
            b = min (int (length lines) - 1) (e + 2);
            snippet = join [LF] (map ((!) lines) [nat a..<nat (b + 1)])
        in extractContent node fileContents =
             (if length snippet > 5000 then take 5000 snippet @ truncation_marker else snippet)"
  proof (cases "content = []")
    case True
    then have "lines = [[]]" by (simp add: lines_def)
    then have "join [LF] (map ((!) lines) [nat a..<nat (b + 1)]) = []"
      using sl join_slice_empty_line [of "[LF]" a "b + 1"] by simp
    with True show ?thesis
      unfolding lines_def a_def b_def
      by (simp add: extractContent_def assms Let_def del: upt_Suc)
  next
    case False
    with assms se sl show ?thesis
      unfolding lines_def a_def b_def
      by (simp add: extractContent_def Let_def contextLines_def MAX_SNIPPET_def
          slice_prefix_numeral del: upt_Suc)
  qed
next
  show "length (extractContent node fileContents) \<le> 5000 + length truncation_marker"
    using assms truncate_length
    by (auto simp: extractContent_def Let_def split: option.splits)
next
  show "join [LF] (split_on LF content) = content"
    by (rule join_split_on)
next
  fix l
  assume "l \<in> set (split_on LF content)"
  then show "LF \<notin> set l"
    by (rule split_on_no_sep)
qed

lemma four_lines_not_binary: "\<not> isBinaryContent four_lines"
  by (simp add: isBinaryContent_count nonPrintable_code_def four_lines_def LF_def)

lemma split_on_four_lines: "split_on LF four_lines = [[0x61], [0x62], [0x63], [0x64]]"
  by (simp add: four_lines_def LF_def)

text \<open>
  C5, two instances over the four-line file: a Function at lines 3 to 3 gets the lines
  of index 1 to 3 (the upper bound 5 is clamped to the last line); without \<open>startLine\<close>
  the result is empty.
\<close>

theorem extractContent_code_element_witness:
  "label (function_node (Some 3) (Some 3)) \<noteq> js ''File''
   \<and> label (function_node (Some 3) (Some 3)) \<noteq> js ''Folder''
   \<and> \<not> isBinaryContent four_lines
   \<and> extractContent (function_node (Some 3) (Some 3)) [js ''a.py'' \<mapsto> four_lines]
       = [0x62, LF, 0x63, LF, 0x64]
   \<and> extractContent (function_node None (Some 3)) [js ''a.py'' \<mapsto> four_lines] = []"
  using extractContent_code_element
    [of "function_node (Some 3) (Some 3)" "[js ''a.py'' \<mapsto> four_lines]" four_lines]
    extractContent_code_element
    [of "function_node None (Some 3)" "[js ''a.py'' \<mapsto> four_lines]" four_lines]
    four_lines_not_binary
  by (simp add: function_node_def split_on_four_lines upt_conv_Cons)

section \<open>Properties of the adapter\<close>

lemmas prog_defs = bindE_def returnE_def throwE_def tryCatch_def tryFinally_def swallow_def
  await_def liftE_def

lemma bindE_Inr: "m s = (Inr a, s') \<Longrightarrow> bindE m f s = f a s'"
  by (simp add: bindE_def)

lemma ok_engine_simps [simp]:
  "kuzu_import ok_engine h = Inr ()" "kuzu_init ok_engine h = Inr ()"
  "new_Database ok_engine h = Inr ()" "new_Connection ok_engine h = Inr ()"
  "conn_query ok_engine h c = Inr (Cursor [\<lparr>cnt = Some 3, col0 = None\<rparr>] None)"
  "conn_prepare ok_engine h c = Inr \<lparr>isSuccess = True, getErrorMessage = []\<rparr>"
  "conn_execute ok_engine h st p = Inr (Cursor [] None)"
  "stmt_close ok_engine h st = Inr ()"
  "fs_unlink ok_engine h path = Inr ()"
  "fs_writeFile ok_engine h path d = Inr ()"
  "build_string ok_engine h text = Inr ()"
  by (simp_all add: ok_engine_def)

lemma write_fails_engine_writeFile:
  "fs_writeFile write_fails_engine h path d = Inl (Error (js ''disk full''))"
  "build_string write_fails_engine h text = Inr ()"
  by (simp_all add: write_fails_engine_def)

lemma serialization_fails_engine_build:
  "build_string serialization_fails_engine h text = Inl (Error (js ''Invalid string length''))"
  by (simp add: serialization_fails_engine_def)

subsection \<open>Initialisation\<close>

lemma initKuzu_ready: "conn s \<noteq> None \<Longrightarrow> initKuzu E sch s = (Inr (), s)"
  by (simp add: initKuzu_def returnE_def)

lemma initSchema_result:
  "initSchema E sch s = (Inr (), s\<lparr>trace := trace s @ map EvQuery (schema_queries E sch (trace s))\<rparr>)"
  by (simp add: initSchema_def query_def prog_defs schema_queries_def split: sum.splits)

lemma initKuzu_success:
  assumes "conn s = None" and "initKuzu E sch s = (Inr u, s1)"
  shows "s1 = s\<lparr>kuzu := Some KuzuModule, db := Some Database, conn := Some Connection,
              trace := trace s @ init_events E sch (trace s)\<rparr>"
  using assms
  by (auto simp: initKuzu_def prog_defs initSchema_result init_events_def
      split: sum.splits prod.splits if_splits)

lemma initKuzu_conn: "initKuzu E sch s = (Inr u, s1) \<Longrightarrow> conn s1 \<noteq> None"
  using initKuzu_success [of s E sch u s1] initKuzu_ready [of s E sch]
  by (cases "conn s = None") auto

lemma lazy_init_then:
  assumes "conn s = None"
  shows "bindE (lazy_init E sch) f s = bindE (initKuzu E sch) (\<lambda>u. bindE (lazy_init E sch) f) s"
proof (cases "initKuzu E sch s")
  case (Pair r s1)
  show ?thesis
  proof (cases r)
    case (Inl e)
    with Pair assms show ?thesis by (simp add: bindE_def lazy_init_def)
  next
    case (Inr u)
    with Pair have "conn s1 \<noteq> None" using initKuzu_conn by metis
    with Pair Inr assms show ?thesis by (auto simp: bindE_def lazy_init_def returnE_def)
  qed
qed

lemma initKuzu_then:
  "bindE (initKuzu E sch) f s = bindE (initKuzu E sch) (\<lambda>u. bindE (initKuzu E sch) f) s"
proof (cases "initKuzu E sch s")
  case (Pair r s1)
  show ?thesis
  proof (cases r)
    case (Inl e)
    with Pair show ?thesis by (simp add: bindE_def)
  next
    case (Inr u)
    with Pair have "conn s1 \<noteq> None" using initKuzu_conn by metis
    with Pair Inr show ?thesis by (simp add: bindE_def initKuzu_ready)
  qed
qed

lemma getKuzuStats_uninit:
  "conn s = None \<Longrightarrow> getKuzuStats E sch s = (Inr \<lparr>stat_nodes = 0, stat_edges = 0\<rparr>, s)"
  by (simp add: getKuzuStats_def returnE_def)

lemma initKuzu_ok_fresh:
  "initKuzu ok_engine example_schema fresh_adapter =
     (Inr (), \<lparr>kuzu = Some KuzuModule, db = Some Database, conn = Some Connection,
        trace = [EvImport, EvInit, EvNewDatabase, EvNewConnection,
                 EvQuery (js ''NODE_SCHEMA''), EvQuery (js ''EDGE_SCHEMA''),
                 EvQuery (js ''EMBEDDING_SCHEMA'')]\<rparr>)"
  by (simp add: initKuzu_def initSchema_def query_def prog_defs fresh_adapter_def example_schema_def)

text \<open>
  C8, amended: called while no connection is held, \<open>loadGraphToKuzu\<close>, \<open>executeQuery\<close>,
  \<open>executePrepared\<close> and \<open>executeWithReusedStatement\<close> first run \<open>initKuzu\<close> and, when it
  succeeds, go on exactly as they do when called in the state it leaves; when it fails,
  its error is theirs. A successful \<open>initKuzu\<close> leaves the adapter ready and has made
  the calls of \<open>init_events\<close>: module load, \<^verbatim>\<open>init\<close>, database and connection creation,
  and the schema statements. \<open>getKuzuStats\<close> and \<open>isKuzuReady\<close> do not initialise: they
  answer zero counts and false, and leave the state as it is.
\<close>

theorem lazy_initialization:
  assumes "conn s = None"
  shows "loadGraphToKuzu E sch graph fc s
           = bindE (initKuzu E sch) (\<lambda>u. loadGraphToKuzu E sch graph fc) s
    \<and> executeQuery E sch cypher s
           = bindE (initKuzu E sch) (\<lambda>u. executeQuery E sch cypher) s
    \<and> executePrepared E sch cypher params s
           = bindE (initKuzu E sch) (\<lambda>u. executePrepared E sch cypher params) s
    \<and> executeWithReusedStatement E sch cypher paramsList s
           = bindE (initKuzu E sch) (\<lambda>u. executeWithReusedStatement E sch cypher paramsList) s
    \<and> (\<forall>u s1. initKuzu E sch s = (Inr u, s1) \<longrightarrow>
          isKuzuReady s1 \<and> trace s1 = trace s @ init_events E sch (trace s))
    \<and> getKuzuStats E sch s = (Inr \<lparr>stat_nodes = 0, stat_edges = 0\<rparr>, s)
    \<and> \<not> isKuzuReady s"
proof (intro conjI allI impI)
  show "loadGraphToKuzu E sch graph fc s
           = bindE (initKuzu E sch) (\<lambda>u. loadGraphToKuzu E sch graph fc) s"
    unfolding loadGraphToKuzu_def by (rule initKuzu_then)
  show "executeQuery E sch cypher s
           = bindE (initKuzu E sch) (\<lambda>u. executeQuery E sch cypher) s"
    unfolding executeQuery_def using assms by (rule lazy_init_then)
  show "executePrepared E sch cypher params s
           = bindE (initKuzu E sch) (\<lambda>u. executePrepared E sch cypher params) s"
    unfolding executePrepared_def using assms by (rule lazy_init_then)
  show "executeWithReusedStatement E sch cypher paramsList s
           = bindE (initKuzu E sch) (\<lambda>u. executeWithReusedStatement E sch cypher paramsList) s"
    unfolding executeWithReusedStatement_def using assms by (rule lazy_init_then)
  show "getKuzuStats E sch s = (Inr \<lparr>stat_nodes = 0, stat_edges = 0\<rparr>, s)"
    using assms by (rule getKuzuStats_uninit)
  show "\<not> isKuzuReady s"
    using assms by (simp add: isKuzuReady_def)
next
  fix u s1
  assume "initKuzu E sch s = (Inr u, s1)"
  then have "s1 = s\<lparr>kuzu := Some KuzuModule, db := Some Database, conn := Some Connection,
              trace := trace s @ init_events E sch (trace s)\<rparr>"
    using assms initKuzu_success by blast
  then show "isKuzuReady s1" "trace s1 = trace s @ init_events E sch (trace s)"
    by (simp_all add: isKuzuReady_def)
qed

text \<open>
  C8, an instance: a query on a fresh adapter, with an engine on which every call
  succeeds, makes the seven calls of the initialisation, then its own, and returns the
  row; the statistics of the fresh adapter are zero and nothing is called.
\<close>

theorem lazy_initialization_witness:
  "conn fresh_adapter = None
   \<and> executeQuery ok_engine example_schema (js ''MATCH (n) RETURN n'') fresh_adapter =
       (Inr [\<lparr>cnt = Some 3, col0 = None\<rparr>],
        \<lparr>kuzu = Some KuzuModule, db = Some Database, conn = Some Connection,
         trace = [EvImport, EvInit, EvNewDatabase, EvNewConnection,
                 EvQuery (js ''NODE_SCHEMA''), EvQuery (js ''EDGE_SCHEMA''),
                 EvQuery (js ''EMBEDDING_SCHEMA''), EvQuery (js ''MATCH (n) RETURN n'')]\<rparr>)
   \<and> getKuzuStats ok_engine example_schema fresh_adapter
       = (Inr \<lparr>stat_nodes = 0, stat_edges = 0\<rparr>, fresh_adapter)"
proof -
  have c: "conn fresh_adapter = None" by (simp add: fresh_adapter_def)
  have q: "executeQuery ok_engine example_schema (js ''MATCH (n) RETURN n'')
      \<lparr>kuzu = Some KuzuModule, db = Some Database, conn = Some Connection,
        trace = [EvImport, EvInit, EvNewDatabase, EvNewConnection,
                 EvQuery (js ''NODE_SCHEMA''), EvQuery (js ''EDGE_SCHEMA''),
                 EvQuery (js ''EMBEDDING_SCHEMA'')]\<rparr> =
       (Inr [\<lparr>cnt = Some 3, col0 = None\<rparr>],
        \<lparr>kuzu = Some KuzuModule, db = Some Database, conn = Some Connection,
         trace = [EvImport, EvInit, EvNewDatabase, EvNewConnection,
                 EvQuery (js ''NODE_SCHEMA''), EvQuery (js ''EDGE_SCHEMA''),
                 EvQuery (js ''EMBEDDING_SCHEMA''), EvQuery (js ''MATCH (n) RETURN n'')]\<rparr>)"
    by (simp add: executeQuery_def lazy_init_def query_def prog_defs)
  show ?thesis
    using lazy_initialization [OF c, of ok_engine example_schema _ _ "js ''MATCH (n) RETURN n''"] c
    by (simp add: bindE_def initKuzu_ok_fresh q)
qed

text \<open>
  C8 as stated fails for the statistics and the readiness check: on a fresh adapter
  \<open>getKuzuStats\<close> answers zero counts and calls nothing, where the same call after an
  initialisation answers the engine's counts; \<open>isKuzuReady\<close> is false before and true
  after it.
\<close>

theorem getKuzuStats_uninitialized_counterexample:
  "getKuzuStats ok_engine example_schema fresh_adapter
     = (Inr \<lparr>stat_nodes = 0, stat_edges = 0\<rparr>, fresh_adapter)
   \<and> fst (bindE (initKuzu ok_engine example_schema) (\<lambda>u. getKuzuStats ok_engine example_schema)
            fresh_adapter) = Inr \<lparr>stat_nodes = 3, stat_edges = 3\<rparr>
   \<and> isKuzuReady fresh_adapter = False
   \<and> isKuzuReady (snd (initKuzu ok_engine example_schema fresh_adapter)) = True"
  unfolding bindE_def initKuzu_ok_fresh
  by (simp add: getKuzuStats_def query_def prog_defs stats_count_def
      isKuzuReady_def fresh_adapter_def)

subsection \<open>Bulk load\<close>

lemma load_nodeCount_named:
  "cnt r = Some n \<Longrightarrow> col0 r = None \<or> col0 r = Some n \<Longrightarrow> load_nodeCount (Some r) = n"
  by (auto simp: load_nodeCount_def or_else_def)

lemma load_nodeCount_positional:
  "cnt r = None \<Longrightarrow> col0 r = Some n \<Longrightarrow> load_nodeCount (Some r) = n"
  by (auto simp: load_nodeCount_def or_else_def)

lemma load_sequence_outcome:
  assumes i: "initKuzu E sch s = (Inr u, s1)"
  shows "fst (loadGraphToKuzu E sch graph fileContents s) =
         Inr (case verification_query E sch graph fileContents (trace s1) of
                Inl e \<Rightarrow> \<lparr>success = False, count = 0\<rparr>
              | Inr countRow \<Rightarrow> \<lparr>success = True, count = load_nodeCount (fst countRow)\<rparr>)"
  unfolding loadGraphToKuzu_def bindE_Inr [where m = "initKuzu E sch", OF i]
  by (simp add: verification_query_def Let_def prog_defs serialize_def unlink_def writeFile_def
      query_def split: sum.splits prod.splits)

text \<open>
  C3, amended: when \<open>initKuzu\<close> fails, \<open>loadGraphToKuzu\<close> fails with the same error (the
  call stands before the \<^verbatim>\<open>try\<close>). When it succeeds, \<open>loadGraphToKuzu\<close> returns a result and
  never an error. The result is \<^verbatim>\<open>{success: false, count: 0}\<close> when any step of the
  sequence fails: the serialization of the nodes or of the edges, a staging-file write,
  a COPY statement, the count query or the read of its row. Otherwise it is
  \<^verbatim>\<open>{success: true, count: N}\<close>, where \<open>N\<close> is the count in the row of the verification
  query: the number the row holds under the name \<^verbatim>\<open>cnt\<close> or, when it holds none there,
  at position 0, and 0 when the query gives no row.
\<close>

theorem loadGraphToKuzu_outcome:
  "(\<forall>e s1. initKuzu E sch s = (Inl e, s1) \<longrightarrow>
       loadGraphToKuzu E sch graph fileContents s = (Inl e, s1))
   \<and> (\<forall>u s1. initKuzu E sch s = (Inr u, s1) \<longrightarrow>
       fst (loadGraphToKuzu E sch graph fileContents s) =
         Inr (case verification_query E sch graph fileContents (trace s1) of
                Inl e \<Rightarrow> \<lparr>success = False, count = 0\<rparr>
              | Inr countRow \<Rightarrow> \<lparr>success = True, count = load_nodeCount (fst countRow)\<rparr>))
   \<and> (\<forall>u s1 e. initKuzu E sch s = (Inr u, s1)
         \<and> (build_string E (trace s1) (generateNodeCSV graph fileContents) = Inl e
            \<or> build_string E (trace s1) (generateEdgeCSV graph) = Inl e) \<longrightarrow>
       fst (loadGraphToKuzu E sch graph fileContents s) = Inr \<lparr>success = False, count = 0\<rparr>)
   \<and> (\<forall>u s1 r rest. initKuzu E sch s = (Inr u, s1)
         \<and> verification_query E sch graph fileContents (trace s1) = Inr (r, rest) \<longrightarrow>
       fst (loadGraphToKuzu E sch graph fileContents s)
         = Inr \<lparr>success = True, count = load_nodeCount r\<rparr>)
   \<and> load_nodeCount None = 0
   \<and> (\<forall>r n. cnt r = Some n \<and> (col0 r = None \<or> col0 r = Some n) \<longrightarrow>
         load_nodeCount (Some r) = n)
   \<and> (\<forall>r n. cnt r = None \<and> col0 r = Some n \<longrightarrow> load_nodeCount (Some r) = n)"
proof (intro conjI allI impI)
  fix e s1
  assume "initKuzu E sch s = (Inl e, s1)"
  then show "loadGraphToKuzu E sch graph fileContents s = (Inl e, s1)"
    by (simp add: loadGraphToKuzu_def bindE_def)
next
  fix u s1
  assume "initKuzu E sch s = (Inr u, s1)"
  then show "fst (loadGraphToKuzu E sch graph fileContents s) =
         Inr (case verification_query E sch graph fileContents (trace s1) of
                Inl e \<Rightarrow> \<lparr>success = False, count = 0\<rparr>
              | Inr countRow \<Rightarrow> \<lparr>success = True, count = load_nodeCount (fst countRow)\<rparr>)"
    by (rule load_sequence_outcome)
next
  fix u s1 e
  assume a: "initKuzu E sch s = (Inr u, s1)
         \<and> (build_string E (trace s1) (generateNodeCSV graph fileContents) = Inl e
            \<or> build_string E (trace s1) (generateEdgeCSV graph) = Inl e)"
  then have "\<exists>e'. verification_query E sch graph fileContents (trace s1) = Inl e'"
    by (auto simp: verification_query_def Let_def split: sum.splits)
  with a show "fst (loadGraphToKuzu E sch graph fileContents s)
                 = Inr \<lparr>success = False, count = 0\<rparr>"
    using load_sequence_outcome [of E sch s u s1 graph fileContents] by auto
next
  fix u s1 r rest
  assume "initKuzu E sch s = (Inr u, s1)
         \<and> verification_query E sch graph fileContents (trace s1) = Inr (r, rest)"
  then show "fst (loadGraphToKuzu E sch graph fileContents s)
               = Inr \<lparr>success = True, count = load_nodeCount r\<rparr>"
    using load_sequence_outcome [of E sch s u s1 graph fileContents] by simp
next
  show "load_nodeCount None = 0"
    by (simp add: load_nodeCount_def)
next
  fix r :: row and n
  assume "cnt r = Some n \<and> (col0 r = None \<or> col0 r = Some n)"
  then show "load_nodeCount (Some r) = n"
    using load_nodeCount_named by blast
next
  fix r :: row and n
  assume "cnt r = None \<and> col0 r = Some n"
  then show "load_nodeCount (Some r) = n"
    using load_nodeCount_positional by blast
qed

text \<open>
  C3, three instances: on a fresh adapter with an engine on which every call succeeds
  the load reports the count 3 of the verification query; with a runtime that fails to
  build the serialized text, and with an engine whose file writes fail, it reports
  failure and count 0 and raises nothing.
\<close>

theorem loadGraphToKuzu_outcome_witness:
  "fst (loadGraphToKuzu ok_engine example_schema example_graph Map.empty fresh_adapter)
     = Inr \<lparr>success = True, count = 3\<rparr>
   \<and> fst (loadGraphToKuzu serialization_fails_engine example_schema example_graph Map.empty
            ready_adapter)
     = Inr \<lparr>success = False, count = 0\<rparr>
   \<and> fst (loadGraphToKuzu write_fails_engine example_schema example_graph Map.empty ready_adapter)
     = Inr \<lparr>success = False, count = 0\<rparr>"
proof -
  have r: "initKuzu write_fails_engine example_schema ready_adapter = (Inr (), ready_adapter)"
    by (simp add: initKuzu_ready ready_adapter_def)
  have r': "initKuzu serialization_fails_engine example_schema ready_adapter
              = (Inr (), ready_adapter)"
    by (simp add: initKuzu_ready ready_adapter_def)
  note ok = loadGraphToKuzu_outcome
    [of ok_engine example_schema fresh_adapter example_graph Map.empty,
     THEN conjunct2, THEN conjunct1, rule_format, OF initKuzu_ok_fresh]
  note ser = loadGraphToKuzu_outcome
    [of serialization_fails_engine example_schema ready_adapter example_graph Map.empty,
     THEN conjunct2, THEN conjunct1, rule_format, OF r']
  note bad = loadGraphToKuzu_outcome
    [of write_fails_engine example_schema ready_adapter example_graph Map.empty,
     THEN conjunct2, THEN conjunct1, rule_format, OF r]
  show ?thesis
    using ok ser bad
    by (simp add: verification_query_def load_nodeCount_def or_else_def
        write_fails_engine_writeFile serialization_fails_engine_build)
qed

text \<open>
  C3 as stated fails: on a fresh adapter, with an engine whose module fails to load,
  \<open>loadGraphToKuzu\<close> raises the error of the import to its caller.
\<close>

theorem loadGraphToKuzu_init_failure_counterexample:
  "loadGraphToKuzu import_fails_engine example_schema example_graph Map.empty fresh_adapter
     = (Inl (Error (js ''import failed'')), fresh_adapter\<lparr>trace := [EvImport]\<rparr>)"
  by (simp add: loadGraphToKuzu_def initKuzu_def prog_defs fresh_adapter_def
      import_fails_engine_def ok_engine_def)

subsection \<open>Prepared statements\<close>

text \<open>
  When \<open>executePrepared\<close> returns rows, the statement was released: the release is the
  last of its three calls.
\<close>

lemma executePrepared_success_releases:
  assumes "conn s \<noteq> None"
    and "executePrepared E sch cypher params s = (Inr rows, s')"
  shows "trace s' = trace s @ [EvPrepare cypher, EvExecute params, EvStmtClose]"
  using assms
  by (auto simp: executePrepared_def lazy_init_def prepare_def execute_def close_stmt_def prog_defs
      split: sum.splits prod.splits if_splits)

text \<open>
  When the execution throws, \<open>executePrepared\<close> rethrows at once: the statement it
  prepared is not released.
\<close>

lemma executePrepared_failure_leaks:
  assumes "conn s \<noteq> None"
    and "conn_prepare E (trace s) cypher = Inr st" and "isSuccess st"
    and "conn_execute E (trace s @ [EvPrepare cypher]) st params = Inl e"
  shows "executePrepared E sch cypher params s =
           (Inl e, s\<lparr>trace := trace s @ [EvPrepare cypher, EvExecute params]\<rparr>)"
  using assms
  by (auto simp: executePrepared_def lazy_init_def prepare_def execute_def prog_defs)

text \<open>
  The sibling \<open>executeWithReusedStatement\<close> releases in a \<^verbatim>\<open>finally\<close> block: once a
  statement is prepared with success, its release is among the calls of the sub-batch,
  whatever the executions do.
\<close>

lemma tryFinally_close_recorded:
  "EvStmtClose \<in> set (trace (snd (tryFinally m (close_stmt E st) s)))"
  by (auto simp: tryFinally_def close_stmt_def await_def split: prod.splits sum.splits)

lemma sub_batch_body_releases:
  assumes "conn_prepare E (trace s) cypher = Inr st" and "isSuccess st"
  shows "EvStmtClose \<in> set (trace (snd (sub_batch_body E cypher paramsList i s)))"
proof -
  define s0 where "s0 = s\<lparr>trace := trace s @ [EvPrepare cypher]\<rparr>"
  define m where "m = tryFinally (execute_each E st
      (slice paramsList (int i) (int (i + SUB_BATCH_SIZE)))) (close_stmt E st)"
  have c: "EvStmtClose \<in> set (trace (snd (m s0)))"
    unfolding m_def by (rule tryFinally_close_recorded)
  have "sub_batch_body E cypher paramsList i s =
      bindE m (\<lambda>u2. if i + SUB_BATCH_SIZE < length paramsList
         then await (\<lambda>h. Inr ()) EvTimeout else returnE ()) s0"
    using assms
    by (simp add: sub_batch_body_def Let_def prepare_def await_def bindE_def returnE_def
        m_def s0_def)
  with c show ?thesis
    by (auto simp: bindE_def await_def returnE_def split: prod.splits sum.splits)
qed

text \<open>
  C2, the failing input: on an initialised adapter, with an engine that prepares with
  success and throws on execution, \<open>executePrepared\<close> makes two calls (prepare, execute)
  and rethrows; no release of the statement is among its calls.
\<close>

theorem executePrepared_leaks_statement:
  "executePrepared execute_fails_engine example_schema (js ''MATCH (n) RETURN n'') 0 ready_adapter
     = (Inl (Error (js ''execute failed'')),
        ready_adapter\<lparr>trace := [EvPrepare (js ''MATCH (n) RETURN n''), EvExecute 0]\<rparr>)
   \<and> EvStmtClose \<notin> set (trace (snd
        (executePrepared execute_fails_engine example_schema (js ''MATCH (n) RETURN n'') 0
           ready_adapter)))"
  by (simp add: executePrepared_def lazy_init_def prepare_def execute_def close_stmt_def prog_defs
      ready_adapter_def execute_fails_engine_def ok_engine_def)

subsection \<open>Sub-batches\<close>

lemma sub_batches_Nil: "sub_batches n [] = []"
  by (subst sub_batches.simps) simp

lemma sub_batches_empty_iff: "0 < n \<Longrightarrow> sub_batches n xs = [] \<longleftrightarrow> xs = []"
  by (subst sub_batches.simps) simp

lemma sub_batches_concat: "0 < n \<Longrightarrow> concat (sub_batches n xs) = xs"
  by (induction n xs rule: sub_batches.induct) (subst sub_batches.simps, simp)

lemma sub_batches_sizes:
  "b \<in> set (sub_batches n xs) \<Longrightarrow> 1 \<le> length b \<and> length b \<le> n"
proof (induction n xs rule: sub_batches.induct)
  case (1 n xs)
  from "1.prems" show ?case
    by (subst (asm) sub_batches.simps) (use "1.IH" in \<open>auto split: if_splits simp: Suc_le_eq\<close>)
qed

lemma sub_batches_full:
  "b \<in> set (butlast (sub_batches n xs)) \<Longrightarrow> length b = n"
proof (induction n xs rule: sub_batches.induct)
  case (1 n xs)
  show ?case
  proof (cases "n = 0 \<or> xs = []")
    case True
    with "1.prems" show ?thesis by (subst (asm) sub_batches.simps) simp
  next
    case False
    then have eq: "sub_batches n xs = take n xs # sub_batches n (drop n xs)"
      by (subst sub_batches.simps) simp
    show ?thesis
    proof (cases "drop n xs = []")
      case True
      then have "sub_batches n (drop n xs) = []" by (simp add: sub_batches_Nil)
      with "1.prems" eq show ?thesis by simp
    next
      case d: False
      then have "sub_batches n (drop n xs) \<noteq> []"
        using False by (simp add: sub_batches_empty_iff)
      with "1.prems" eq have "b = take n xs \<or> b \<in> set (butlast (sub_batches n (drop n xs)))"
        by auto
      with d "1.IH" False show ?thesis by auto
    qed
  qed
qed

lemma sub_batches_length: "0 < n \<Longrightarrow> length (sub_batches n xs) = (length xs + n - 1) div n"
proof (induction n xs rule: sub_batches.induct)
  case (1 n xs)
  show ?case
  proof (cases "xs = []")
    case True
    with "1.prems" show ?thesis by (simp add: sub_batches_Nil)
  next
    case False
    then have "length (sub_batches n xs) = Suc (length (sub_batches n (drop n xs)))"
      using "1.prems" by (subst sub_batches.simps) simp
    also have "\<dots> = Suc ((length (drop n xs) + n - 1) div n)"
      using "1.IH" "1.prems" False by simp
    also have "\<dots> = (length xs + n - 1) div n"
    proof (cases "n \<le> length xs")
      case True
      then have "length xs + n - 1 = (length xs - n + n - 1) + n" using "1.prems" by simp
      then have "(length xs + n - 1) div n = Suc ((length xs - n + n - 1) div n)"
        using "1.prems" by (metis div_add_self2 Suc_eq_plus1 less_numeral_extra(3))
      then show ?thesis by simp
    next
      case f: False
      have "n * 1 \<le> length xs + n - 1"
        using False by (cases xs) simp_all
      moreover have "length xs + n - 1 < n * Suc 1"
        using f by simp
      ultimately have "(length xs + n - 1) div n = 1"
        by (rule div_nat_eqI)
      with f show ?thesis by simp
    qed
    finally show ?thesis .
  qed
qed

lemma sub_batches_ten:
  "sub_batches 4 [11, 12, 13, 14, 15, 16, 17, 18, 19, 20 :: nat]
     = [[11, 12, 13, 14], [15, 16, 17, 18], [19, 20]]"
  by (simp add: sub_batches.simps)

subsection \<open>The calls of the expected cycles\<close>

lemma executed_append: "executed (xs @ ys) = executed xs @ executed ys"
  by (induction xs) (auto split: event.splits)

lemma executed_map: "executed (map EvExecute ps) = ps"
  by (induction ps) auto

lemma executed_cycle: "executed (cycle_events cy b) = b"
  by (simp add: cycle_events_def executed_append executed_map)

lemma executed_batch_events: "executed (batch_events cy bs) = concat bs"
  by (induction cy bs rule: batch_events.induct) (simp_all add: executed_append executed_cycle)

lemma prepares_cycle: "length (filter (\<lambda>ev. ev = EvPrepare cy) (cycle_events cy b)) = 1"
  by (induction b) (auto simp: cycle_events_def)

lemma prepares_batch_events:
  "length (filter (\<lambda>ev. ev = EvPrepare cy) (batch_events cy bs)) = length bs"
  by (induction cy bs rule: batch_events.induct) (simp_all add: prepares_cycle)

lemma timeouts_cycle: "filter (\<lambda>ev. ev = EvTimeout) (cycle_events cy b) = []"
  by (induction b) (auto simp: cycle_events_def)

lemma timeouts_batch_events:
  "length (filter (\<lambda>ev. ev = EvTimeout) (batch_events cy bs)) = length bs - 1"
  by (induction cy bs rule: batch_events.induct) (simp_all add: timeouts_cycle)

lemma batch_events_Cons:
  "batch_events cy (b # rest) =
     cycle_events cy b @ (if rest = [] then [] else EvTimeout # batch_events cy rest)"
  by (cases rest) auto

subsection \<open>The batched executor\<close>

lemma slice_sub_batch: "slice ps (int i) (int (i + n)) = take n (drop i ps)"
proof -
  have "nat (int i + int n) = i + n" by simp
  then show ?thesis
    by (auto simp: slice_def slice_index_def Let_def min_def simp del: nat_int_add)
qed

lemma execute_each_ok:
  assumes "\<forall>h st p. \<exists>cur. conn_execute E h st p = Inr cur"
  shows "execute_each E st bs s = (Inr (), s\<lparr>trace := trace s @ map EvExecute bs\<rparr>)"
proof (induction bs arbitrary: s)
  case Nil
  then show ?case by (simp add: returnE_def)
next
  case (Cons p bs)
  obtain cur where "conn_execute E (trace s) st p = Inr cur"
    using assms by blast
  then show ?case
    by (simp add: Cons.IH execute_def prog_defs)
qed

lemma sub_batch_body_ok:
  assumes "\<forall>h. \<exists>st. conn_prepare E h cypher = Inr st \<and> isSuccess st"
    and "\<forall>h st p. \<exists>cur. conn_execute E h st p = Inr cur"
    and "\<forall>h st. stmt_close E h st = Inr ()"
  shows "sub_batch_body E cypher ps i s =
     (Inr (), s\<lparr>trace := trace s @ cycle_events cypher (take SUB_BATCH_SIZE (drop i ps))
                    @ (if i + SUB_BATCH_SIZE < length ps then [EvTimeout] else [])\<rparr>)"
proof -
  obtain st where st: "conn_prepare E (trace s) cypher = Inr st" "isSuccess st"
    using assms(1) by blast
  show ?thesis
    unfolding sub_batch_body_def Let_def slice_sub_batch
    using st assms(3)
    by (simp add: prepare_def close_stmt_def prog_defs execute_each_ok [OF assms(2)]
        cycle_events_def)
qed

lemma batch_loop_ok:
  assumes "\<forall>h. \<exists>st. conn_prepare E h cypher = Inr st \<and> isSuccess st"
    and "\<forall>h st p. \<exists>cur. conn_execute E h st p = Inr cur"
    and "\<forall>h st. stmt_close E h st = Inr ()"
  shows "batch_loop E cypher ps i s =
     (Inr (), s\<lparr>trace := trace s @ batch_events cypher (sub_batches SUB_BATCH_SIZE (drop i ps))\<rparr>)"
  using assms
proof (induction E cypher ps i s rule: batch_loop.induct)
  case (1 E cypher ps i s)
  show ?case
  proof (cases "i < length ps")
    case False
    then have "sub_batches SUB_BATCH_SIZE (drop i ps) = []"
      by (simp add: sub_batches_Nil)
    with False show ?thesis
      by (subst batch_loop.simps) simp
  next
    case True
    define s' where "s' = s\<lparr>trace := trace s @ cycle_events cypher (take SUB_BATCH_SIZE (drop i ps))
                    @ (if i + SUB_BATCH_SIZE < length ps then [EvTimeout] else [])\<rparr>"
    have body: "sub_batch_body E cypher ps i s = (Inr (), s')"
      unfolding s'_def using "1.prems" by (rule sub_batch_body_ok)
    have IH: "batch_loop E cypher ps (i + SUB_BATCH_SIZE) s' =
      (Inr (), s'\<lparr>trace := trace s' @ batch_events cypher
          (sub_batches SUB_BATCH_SIZE (drop (i + SUB_BATCH_SIZE) ps))\<rparr>)"
      using "1.IH" [OF True body [symmetric] refl "1.prems"] .
    have sb: "sub_batches SUB_BATCH_SIZE (drop i ps) =
        take SUB_BATCH_SIZE (drop i ps) # sub_batches SUB_BATCH_SIZE (drop (i + SUB_BATCH_SIZE) ps)"
      using True by (subst sub_batches.simps) (simp add: SUB_BATCH_SIZE_def add.commute)
    have e: "sub_batches SUB_BATCH_SIZE (drop (i + SUB_BATCH_SIZE) ps) = []
               \<longleftrightarrow> \<not> i + SUB_BATCH_SIZE < length ps"
      by (auto simp: sub_batches_empty_iff SUB_BATCH_SIZE_def)
    have L: "batch_loop E cypher ps i s = batch_loop E cypher ps (i + SUB_BATCH_SIZE) s'"
      using True body by (subst batch_loop.simps) simp
    have R: "batch_events cypher (sub_batches SUB_BATCH_SIZE (drop i ps)) =
        cycle_events cypher (take SUB_BATCH_SIZE (drop i ps))
        @ (if i + SUB_BATCH_SIZE < length ps then [EvTimeout] else [])
        @ batch_events cypher (sub_batches SUB_BATCH_SIZE (drop (i + SUB_BATCH_SIZE) ps))"
      unfolding sb batch_events_Cons e by (simp add: sub_batches_Nil)
    show ?thesis
      unfolding L IH R by (simp add: s'_def)
  qed
qed

text \<open>
  C7, amended: on an adapter that holds a connection, \<open>executeWithReusedStatement\<close> is a
  no-op on the empty list. When every preparation, execution and release succeeds, its
  calls on a list are those of \<open>batch_events\<close> for the sub-batches of size 4: for each
  sub-batch in order one preparation, the executions of its parameter sets in order, and
  the release, with one timeout tick between two sub-batches and none after the last.
  The sub-batches concatenate to the list, each has between 1 and 4 elements and all but
  the last have 4, so there are \<open>(length + 3) div 4\<close> of them; the calls hold one
  preparation for each, the executions are the list in order, and the ticks are one
  fewer than the sub-batches.
\<close>

theorem executeWithReusedStatement_batches:
  assumes "conn s \<noteq> None"
  shows "executeWithReusedStatement E sch cypher [] s = (Inr (), s)
    \<and> ((\<forall>h. \<exists>st. conn_prepare E h cypher = Inr st \<and> isSuccess st)
        \<and> (\<forall>h st p. \<exists>cur. conn_execute E h st p = Inr cur)
        \<and> (\<forall>h st. stmt_close E h st = Inr ()) \<longrightarrow>
         executeWithReusedStatement E sch cypher paramsList s =
           (Inr (), s\<lparr>trace := trace s @ batch_events cypher (sub_batches 4 paramsList)\<rparr>))
    \<and> concat (sub_batches 4 paramsList) = paramsList
    \<and> (\<forall>b \<in> set (sub_batches 4 paramsList). 1 \<le> length b \<and> length b \<le> 4)
    \<and> (\<forall>b \<in> set (butlast (sub_batches 4 paramsList)). length b = 4)
    \<and> length (sub_batches 4 paramsList) = (length paramsList + 3) div 4
    \<and> length (filter (\<lambda>ev. ev = EvPrepare cypher) (batch_events cypher (sub_batches 4 paramsList)))
        = length (sub_batches 4 paramsList)
    \<and> executed (batch_events cypher (sub_batches 4 paramsList)) = paramsList
    \<and> length (filter (\<lambda>ev. ev = EvTimeout) (batch_events cypher (sub_batches 4 paramsList)))
        = length (sub_batches 4 paramsList) - 1"
proof (intro conjI impI)
  show "executeWithReusedStatement E sch cypher [] s = (Inr (), s)"
    using assms by (auto simp: executeWithReusedStatement_def lazy_init_def bindE_def returnE_def)
next
  assume ok: "(\<forall>h. \<exists>st. conn_prepare E h cypher = Inr st \<and> isSuccess st)
        \<and> (\<forall>h st p. \<exists>cur. conn_execute E h st p = Inr cur)
        \<and> (\<forall>h st. stmt_close E h st = Inr ())"
  then have loop: "batch_loop E cypher paramsList 0 s =
     (Inr (), s\<lparr>trace := trace s @ batch_events cypher (sub_batches SUB_BATCH_SIZE (drop 0 paramsList))\<rparr>)"
    by (intro batch_loop_ok) simp_all
  show "executeWithReusedStatement E sch cypher paramsList s =
           (Inr (), s\<lparr>trace := trace s @ batch_events cypher (sub_batches 4 paramsList)\<rparr>)"
  proof (cases "paramsList = []")
    case True
    with assms show ?thesis
      by (auto simp: executeWithReusedStatement_def lazy_init_def bindE_def returnE_def
          sub_batches_Nil)
  next
    case False
    with assms loop show ?thesis
      by (auto simp: executeWithReusedStatement_def lazy_init_def bindE_def returnE_def
          SUB_BATCH_SIZE_def)
  qed
next
  show "concat (sub_batches 4 paramsList) = paramsList"
    by (simp add: sub_batches_concat)
  show "\<forall>b \<in> set (sub_batches 4 paramsList). 1 \<le> length b \<and> length b \<le> 4"
    using sub_batches_sizes by blast
  show "\<forall>b \<in> set (butlast (sub_batches 4 paramsList)). length b = 4"
    using sub_batches_full by blast
  show "length (sub_batches 4 paramsList) = (length paramsList + 3) div 4"
    by (simp add: sub_batches_length)
  show "length (filter (\<lambda>ev. ev = EvPrepare cypher) (batch_events cypher (sub_batches 4 paramsList)))
        = length (sub_batches 4 paramsList)"
    by (rule prepares_batch_events)
  show "executed (batch_events cypher (sub_batches 4 paramsList)) = paramsList"
    by (simp add: executed_batch_events sub_batches_concat)
  show "length (filter (\<lambda>ev. ev = EvTimeout) (batch_events cypher (sub_batches 4 paramsList)))
        = length (sub_batches 4 paramsList) - 1"
    by (rule timeouts_batch_events)
qed

text \<open>
  C7, an instance: ten parameter sets on an initialised adapter give three preparation
  cycles of sizes 4, 4 and 2, with a tick after the first and the second; the empty list
  gives no call.
\<close>

theorem executeWithReusedStatement_batches_witness:
  "conn ready_adapter \<noteq> None
   \<and> map length (sub_batches 4 [11, 12, 13, 14, 15, 16, 17, 18, 19, 20 :: nat]) = [4, 4, 2]
   \<and> executeWithReusedStatement ok_engine example_schema (js ''Q'')
        [11, 12, 13, 14, 15, 16, 17, 18, 19, 20] ready_adapter =
       (Inr (), ready_adapter\<lparr>trace :=
          [EvPrepare (js ''Q''), EvExecute 11, EvExecute 12, EvExecute 13, EvExecute 14, EvStmtClose,
           EvTimeout,
           EvPrepare (js ''Q''), EvExecute 15, EvExecute 16, EvExecute 17, EvExecute 18, EvStmtClose,
           EvTimeout,
           EvPrepare (js ''Q''), EvExecute 19, EvExecute 20, EvStmtClose]\<rparr>)
   \<and> executeWithReusedStatement ok_engine example_schema (js ''Q'') [] ready_adapter
       = (Inr (), ready_adapter)"
proof -
  have c: "conn ready_adapter \<noteq> None" by (simp add: ready_adapter_def)
  have t: "trace ready_adapter = []" by (simp add: ready_adapter_def)
  show ?thesis
    using executeWithReusedStatement_batches
      [OF c, of ok_engine example_schema "js ''Q''" "[11, 12, 13, 14, 15, 16, 17, 18, 19, 20]"] c
    by (simp add: sub_batches_ten cycle_events_def t)
qed

text \<open>
  C7 as stated fails: on a fresh adapter the call with the empty list is not a no-op;
  it loads the module, creates the database and the connection and issues the schema
  statements, seven calls on a trace that was empty.
\<close>

theorem executeWithReusedStatement_empty_uninitialized_counterexample:
  "executeWithReusedStatement ok_engine example_schema (js ''Q'') [] fresh_adapter =
     (Inr (), \<lparr>kuzu = Some KuzuModule, db = Some Database, conn = Some Connection,
        trace = [EvImport, EvInit, EvNewDatabase, EvNewConnection,
                 EvQuery (js ''NODE_SCHEMA''), EvQuery (js ''EDGE_SCHEMA''),
                 EvQuery (js ''EMBEDDING_SCHEMA'')]\<rparr>)
   \<and> executeWithReusedStatement ok_engine example_schema (js ''Q'') [] fresh_adapter
       \<noteq> (Inr (), fresh_adapter)"
proof -
  have c: "conn fresh_adapter = None" by (simp add: fresh_adapter_def)
  show ?thesis
    by (simp add: executeWithReusedStatement_def lazy_init_def c bindE_def initKuzu_ok_fresh
        returnE_def) (simp add: fresh_adapter_def)
qed

section \<open>Properties of the worker\<close>

lemma getKuzuAdapter_cases:
  "(\<exists>e w'. getKuzuAdapter imp w = (Inl e, w') \<and> \<not> kuzuAdapter w
        \<and> imp (trace (adapter_state w)) = Inl e)
   \<or> (\<exists>w'. getKuzuAdapter imp w = (Inr (), w')
        \<and> isKuzuReady (adapter_state w') = isKuzuReady (adapter_state w)
        \<and> isEmbeddingComplete w' = isEmbeddingComplete w)"
  by (auto simp: getKuzuAdapter_def Let_def isKuzuReady_def split: sum.splits)

text \<open>
  C9: called while the engine is not ready or the embedding phase has not completed,
  \<open>semanticSearch\<close> and \<open>semanticSearchWithContext\<close> end in an error and never in a
  result: the error \<^verbatim>\<open>Database not ready. Please load a repository first.\<close>, the error
  \<^verbatim>\<open>Embeddings not ready. Please wait for embedding pipeline to complete.\<close>, or, when the
  adapter module was not loaded yet and its import fails, the error of that import.
\<close>

theorem semanticSearch_precondition:
  assumes "\<not> isKuzuReady (adapter_state w) \<or> \<not> isEmbeddingComplete w"
  shows "(\<exists>e w'. semanticSearch imp doSearch q k maxDistance w = (Inl e, w')
            \<and> (e = database_not_ready \<or> e = embeddings_not_ready
                 \<or> (kuzuAdapter w = False \<and> imp (trace (adapter_state w)) = Inl e)))
       \<and> (\<exists>e w'. semanticSearchWithContext imp doSearchWithContext q k hops w = (Inl e, w')
            \<and> (e = database_not_ready \<or> e = embeddings_not_ready
                 \<or> (kuzuAdapter w = False \<and> imp (trace (adapter_state w)) = Inl e)))"
  using assms getKuzuAdapter_cases [of imp w]
  by (auto simp: semanticSearch_def semanticSearchWithContext_def bindE_def throwE_def)

text \<open>
  C9, two instances, with a search that would answer the empty sequence: on a fresh
  worker \<open>semanticSearch\<close> fails with the database error; on a worker whose adapter is
  ready and whose embeddings are not complete \<open>semanticSearchWithContext\<close> fails with the
  embeddings error.
\<close>

theorem semanticSearch_precondition_witness:
  "semanticSearch (\<lambda>h. Inr ()) empty_search (js ''auth'') 10 (1 / 2) fresh_worker
     = (Inl database_not_ready,
        fresh_worker\<lparr>kuzuAdapter := True,
                     adapter_state := fresh_adapter\<lparr>trace := [EvImportAdapter]\<rparr>\<rparr>)
   \<and> semanticSearchWithContext (\<lambda>h. Inr ()) empty_search (js ''auth'') 5 2 loaded_worker
     = (Inl embeddings_not_ready, loaded_worker)"
proof -
  have a: "\<not> isKuzuReady (adapter_state fresh_worker) \<or> \<not> isEmbeddingComplete fresh_worker"
    by (simp add: fresh_worker_def)
  have b: "\<not> isKuzuReady (adapter_state loaded_worker) \<or> \<not> isEmbeddingComplete loaded_worker"
    by (simp add: loaded_worker_def)
  show ?thesis
    using semanticSearch_precondition
        [OF a, where imp = "\<lambda>h. Inr ()" and doSearch = empty_search and q = "js ''auth''"
           and k = 10 and maxDistance = "1 / 2"]
      semanticSearch_precondition
        [OF b, where imp = "\<lambda>h. Inr ()" and doSearchWithContext = empty_search
           and q = "js ''auth''" and k = 5 and hops = 2]
    by (simp add: semanticSearch_def semanticSearchWithContext_def getKuzuAdapter_def bindE_def
        throwE_def fresh_worker_def loaded_worker_def fresh_adapter_def ready_adapter_def
        isKuzuReady_def Let_def)
qed

end
